theory Spec2Isabelle
  imports Main "HOL-Library.Sublist"
begin

section \<open>JavaScript values\<close>

text \<open>
  The documents the pipeline handles are parsed JSON. A JSON value is a tree; an object
  is a list of properties in insertion order, with pairwise distinct keys. Keys are
  taken to be neither integer-like (JavaScript lists such keys first, in numeric order)
  nor \<open>__proto__\<close> (assigning to it sets the prototype and adds no property). A property
  that is absent (JavaScript's \<open>undefined\<close>) is \<open>None\<close> at the place that reads it.
  Numbers are integers here; strings are ASCII, one \<open>char\<close> for one code unit.
  A thrown \<open>Error\<close> is a value: \<open>Inl (Error message)\<close>.
\<close>

datatype json =
    JNull
  | JBool bool
  | JNum int
  | JStr string
  | JArr "json list"
  | JObj "(string \<times> json) list"

datatype error = Error string

text \<open>\<open>!!value\<close>: \<open>null\<close>, \<open>false\<close>, \<open>0\<close> and the empty string are falsy.\<close>

fun truthy :: "json \<Rightarrow> bool" where
  "truthy JNull = False"
| "truthy (JBool b) = b"
| "truthy (JNum n) = (n \<noteq> 0)"
| "truthy (JStr s) = (s \<noteq> [])"
| "truthy (JArr _) = True"
| "truthy (JObj _) = True"

definition truthyOpt :: "json option \<Rightarrow> bool" where
  "truthyOpt v = (case v of None \<Rightarrow> False | Some x \<Rightarrow> truthy x)"

text \<open>\<open>typeof value === 'object'\<close> for a value that is not \<open>null\<close>.\<close>

fun isObjectLike :: "json \<Rightarrow> bool" where
  "isObjectLike (JArr _) = True"
| "isObjectLike (JObj _) = True"
| "isObjectLike _ = False"

fun isArray :: "json \<Rightarrow> bool" where
  "isArray (JArr _) = True"
| "isArray _ = False"

text \<open>Decimal digits of an array index, as \<open>String(i)\<close> writes them.\<close>

definition digit :: "nat \<Rightarrow> char" where
  "digit d = ''0123456789'' ! (d mod 10)"

function showNat :: "nat \<Rightarrow> string" where
  "showNat n = (if n < 10 then [digit n] else showNat (n div 10) @ [digit (n mod 10)])"
  by pat_completeness auto
termination
  by (relation "measure id") auto

declare showNat.simps [simp del]

definition indexed :: "'a list \<Rightarrow> (string \<times> 'a) list" where
  "indexed xs = zip (map showNat [0..<length xs]) xs"

text \<open>
  \<open>Object.entries(value)\<close> for a value that is neither \<open>null\<close> nor \<open>undefined\<close>:
  the properties of an object, the elements of an array under their indices, the
  characters of a string under theirs, nothing for a number or a boolean.
\<close>

fun entries :: "json \<Rightarrow> (string \<times> json) list" where
  "entries (JObj kvs) = kvs"
| "entries (JArr vs) = indexed vs"
| "entries (JStr s) = indexed (map (\<lambda>c. JStr [c]) s)"
| "entries _ = []"

text \<open>\<open>obj[key] = value\<close>: an existing key keeps its place, a new key goes last.\<close>

fun objSet :: "string \<Rightarrow> 'v \<Rightarrow> (string \<times> 'v) list \<Rightarrow> (string \<times> 'v) list" where
  "objSet k v [] = [(k, v)]"
| "objSet k v ((k', v') # rest) =
     (if k' = k then (k, v) # rest else (k', v') # objSet k v rest)"

definition assignAll :: "(string \<times> 'v) list \<Rightarrow> (string \<times> 'v) list \<Rightarrow> (string \<times> 'v) list" where
  "assignAll target props = foldl (\<lambda>acc (k, v). objSet k v acc) target props"

text \<open>Object spread \<open>{ ...a, ...b }\<close>; spreading \<open>null\<close> or \<open>undefined\<close> adds nothing.\<close>

definition spreadOpt :: "json option \<Rightarrow> (string \<times> json) list" where
  "spreadOpt v = (case v of None \<Rightarrow> [] | Some x \<Rightarrow> entries x)"

definition spread2 :: "json option \<Rightarrow> json option \<Rightarrow> (string \<times> json) list" where
  "spread2 a b = assignAll (assignAll [] (spreadOpt a)) (spreadOpt b)"

text \<open>\<open>value.key\<close> on a value that is not \<open>null\<close>.\<close>

fun getProp :: "json \<Rightarrow> string \<Rightarrow> json option" where
  "getProp (JObj kvs) k = map_of kvs k"
| "getProp _ k = None"

text \<open>\<open>value ?? {}\<close>.\<close>

definition orEmptyObject :: "json option \<Rightarrow> json" where
  "orEmptyObject v = (case v of None \<Rightarrow> JObj [] | Some JNull \<Rightarrow> JObj [] | Some x \<Rightarrow> x)"

section \<open>Merging fetched documents\<close>

text \<open>\<open>src/stage/extend/invoke/utils/merge.ts\<close>.\<close>

datatype MergeStrategy =
    Auto
  | Swagger
  | OpenApi
  | JsonArray
  | First
  | Custom "json list \<Rightarrow> error + json"

text \<open>\<open>!!value && typeof value === 'object' && 'paths' in value\<close>.\<close>

fun isSwaggerLike :: "json \<Rightarrow> bool" where
  "isSwaggerLike (JObj kvs) = (''paths'' \<in> set (map fst kvs))"
| "isSwaggerLike _ = False"

definition detectMergeStrategy :: "json list \<Rightarrow> MergeStrategy" where
  "detectMergeStrategy documents =
     (if length documents = 1 then First
      else if list_all isSwaggerLike documents then Swagger
      else JsonArray)"

text \<open>
  \<open>collectTags\<close> and \<open>collectServers\<close> fill a \<open>Map\<close> keyed by the entry's \<open>name\<close>
  (its \<open>url\<close>): an entry that is not an object, or whose key is not a string, is
  skipped; a later entry with the same key is spread over the earlier one.
\<close>

fun collectOne :: "string \<Rightarrow> (string \<times> json) list \<Rightarrow> json \<Rightarrow> (string \<times> json) list" where
  "collectOne field target (JObj kvs) =
     (case map_of kvs field of
        Some (JStr name) \<Rightarrow>
          (case map_of target name of
             Some existing \<Rightarrow> objSet name (JObj (spread2 (Some existing) (Some (JObj kvs)))) target
           | None \<Rightarrow> objSet name (JObj kvs) target)
      | _ \<Rightarrow> target)"
| "collectOne field target _ = target"

definition collectBy :: "string \<Rightarrow> (string \<times> json) list \<Rightarrow> json option \<Rightarrow> (string \<times> json) list" where
  "collectBy field target source =
     (case source of Some (JArr items) \<Rightarrow> foldl (collectOne field) target items | _ \<Rightarrow> target)"

definition collectTags :: "(string \<times> json) list \<Rightarrow> json option \<Rightarrow> (string \<times> json) list" where
  "collectTags = collectBy ''name''"

definition collectServers :: "(string \<times> json) list \<Rightarrow> json option \<Rightarrow> (string \<times> json) list" where
  "collectServers = collectBy ''url''"

definition mergeComponentEntry :: "(string \<times> json) list \<Rightarrow> string \<times> json \<Rightarrow> (string \<times> json) list" where
  "mergeComponentEntry target entry =
     (case entry of (sectionKey, sectionValue) \<Rightarrow>
        (case map_of target sectionKey of
           Some (JObj cur) \<Rightarrow>
             objSet sectionKey (JObj (spread2 (Some (JObj cur)) (Some sectionValue))) target
         | _ \<Rightarrow> objSet sectionKey sectionValue target))"

definition mergeComponentSection :: "(string \<times> json) list \<Rightarrow> json option \<Rightarrow> (string \<times> json) list" where
  "mergeComponentSection target source =
     (if \<not> truthyOpt source then target
      else foldl mergeComponentEntry target (spreadOpt source))"

definition mergePathEntry :: "(string \<times> json) list \<Rightarrow> string \<times> json \<Rightarrow> (string \<times> json) list" where
  "mergePathEntry paths entry =
     (case entry of (pathKey, pathValue) \<Rightarrow>
        objSet pathKey
          (JObj (spread2 (Some (orEmptyObject (map_of paths pathKey))) (Some pathValue))) paths)"

record MergeState =
  mPaths :: "(string \<times> json) list"
  mComponents :: "(string \<times> json) list"
  mTags :: "(string \<times> json) list"
  mServers :: "(string \<times> json) list"

definition mergeStep :: "MergeState \<Rightarrow> json \<Rightarrow> MergeState" where
  "mergeStep st doc =
     \<lparr> mPaths = foldl mergePathEntry (mPaths st) (entries (orEmptyObject (getProp doc ''paths''))),
       mComponents = mergeComponentSection (mComponents st) (getProp doc ''components''),
       mTags = collectTags (mTags st) (getProp doc ''tags''),
       mServers = collectServers (mServers st) (getProp doc ''servers'') \<rparr>"

definition mergeSwaggerDocuments :: "json list \<Rightarrow> json" where
  "mergeSwaggerDocuments documents =
     (case documents of
        [] \<Rightarrow> JObj []
      | first # rest \<Rightarrow>
          (let st0 = \<lparr> mPaths = spread2 None (Some (orEmptyObject (getProp first ''paths''))),
                       mComponents = spread2 None (Some (orEmptyObject (getProp first ''components''))),
                       mTags = collectTags [] (getProp first ''tags''),
                       mServers = collectServers [] (getProp first ''servers'') \<rparr>;
               st = foldl mergeStep st0 rest;
               merged0 = objSet ''components'' (JObj (mComponents st))
                           (objSet ''paths'' (JObj (mPaths st)) (spread2 None (Some first)));
               merged1 = (if mTags st \<noteq> [] then objSet ''tags'' (JArr (map snd (mTags st))) merged0
                          else merged0);
               merged2 = (if mServers st \<noteq> [] then objSet ''servers'' (JArr (map snd (mServers st))) merged1
                          else merged1)
           in JObj merged2))"

definition notAllSwagger :: error where
  "notAllSwagger =
     Error ''Merge strategy swagger requested but not all documents appear to be OpenAPI/Swagger.''"

definition mergeDocuments :: "json list \<Rightarrow> MergeStrategy option \<Rightarrow> error + json" where
  "mergeDocuments documents strategy =
     (if documents = [] then Inl (Error ''No documents fetched to merge.'')
      else case strategy of
        Some (Custom f) \<Rightarrow> f documents
      | _ \<Rightarrow>
        (let appliedStrategy =
               (case strategy of None \<Rightarrow> detectMergeStrategy documents
                | Some Auto \<Rightarrow> detectMergeStrategy documents
                | Some s \<Rightarrow> s);
             swaggerDocs = filter isSwaggerLike documents
         in case appliedStrategy of
              First \<Rightarrow> Inr (hd documents)
            | JsonArray \<Rightarrow> Inr (JArr documents)
            | Swagger \<Rightarrow>
                (if swaggerDocs = [] \<or> length swaggerDocs \<noteq> length documents then Inl notAllSwagger
                 else Inr (mergeSwaggerDocuments swaggerDocs))
            | OpenApi \<Rightarrow>
                (if swaggerDocs = [] \<or> length swaggerDocs \<noteq> length documents then Inl notAllSwagger
                 else Inr (mergeSwaggerDocuments swaggerDocs))
            | _ \<Rightarrow>
                (if length swaggerDocs = length documents \<and> swaggerDocs \<noteq> [] then
                   Inr (mergeSwaggerDocuments swaggerDocs)
                 else if length documents = 1 then Inr (hd documents)
                 else Inr (JArr documents))))"

section \<open>Fetching documents\<close>

text \<open>
  \<open>src/stage/extend/invoke/utils/fetch.ts\<close>. A single source is a path or URL string,
  a \<open>URL\<close> object or a request descriptor. What the network and the file system answer
  is the \<open>World\<close>: \<open>fetchHttp\<close> is the outcome of one HTTP request (the parsed body, or
  the error thrown for a network failure or a response that is not 2xx), \<open>parseJsonFile\<close>
  the outcome of reading and parsing a local file, \<open>fileURLToPath\<close> Node's conversion
  of a \<open>file://\<close> URL.
\<close>

datatype ResponseParseMode = ParseAuto | ParseJson | ParseText | ParseBuffer

record ApiDocRequest =
  reqUrl :: string
  reqMethod :: "string option"
  reqHeaders :: "(string \<times> string) list option"
  reqQuery :: "json option"
  reqBody :: "json option"
  reqParseAs :: "ResponseParseMode option"

datatype DocSourceSingle =
    SourceString string
  | SourceURL string
  | SourceRequest ApiDocRequest

record World =
  fetchHttp :: "ApiDocRequest \<Rightarrow> error + json"
  parseJsonFile :: "string \<Rightarrow> error + json"
  fileURLToPath :: "string \<Rightarrow> error + string"

text \<open>What \<open>resolveRequests\<close> resolves to: one source or an array of them.\<close>

datatype Followups = One DocSourceSingle | Many "DocSourceSingle list"

datatype ApiDocSource =
    Single DocSourceSingle
  | MultiEndpoint "DocSourceSingle list" "MergeStrategy option"
  | Discovery DocSourceSingle "json \<Rightarrow> error + Followups" "MergeStrategy option"

definition startsWith :: "string \<Rightarrow> string \<Rightarrow> bool" where
  "startsWith s p = prefix p s"

definition isHttpUrl :: "string \<Rightarrow> bool" where
  "isHttpUrl v = (startsWith v ''http://'' \<or> startsWith v ''https://'')"

definition autoRequest :: "string \<Rightarrow> ApiDocRequest" where
  "autoRequest u = \<lparr> reqUrl = u, reqMethod = None, reqHeaders = None, reqQuery = None, reqBody = None,
                      reqParseAs = Some ParseAuto \<rparr>"

fun fetchSingleDocument :: "World \<Rightarrow> DocSourceSingle \<Rightarrow> error + json" where
  "fetchSingleDocument w (SourceURL u) = fetchHttp w (autoRequest u)"
| "fetchSingleDocument w (SourceString spec) =
     (if isHttpUrl spec then fetchHttp w (autoRequest spec)
      else if startsWith spec ''file://'' then
        (case fileURLToPath w spec of Inl e \<Rightarrow> Inl e | Inr p \<Rightarrow> parseJsonFile w p)
      else parseJsonFile w spec)"
| "fetchSingleDocument w (SourceRequest r) = fetchHttp w r"

fun ensureArray :: "Followups \<Rightarrow> DocSourceSingle list" where
  "ensureArray (One r) = [r]"
| "ensureArray (Many rs) = rs"

text \<open>
  \<open>Promise.all(requests.map(fetchSingleDocument))\<close>: every request is issued; the
  documents come back in request order, and one rejection rejects the whole. Of several
  rejections \<open>Promise.all\<close> reports the one that settles first; the order in which
  requests settle is not part of the model, which reports the leftmost.
\<close>

fun awaitAll :: "(error + 'a) list \<Rightarrow> error + 'a list" where
  "awaitAll [] = Inr []"
| "awaitAll (Inl e # rest) = Inl e"
| "awaitAll (Inr x # rest) = (case awaitAll rest of Inl e \<Rightarrow> Inl e | Inr xs \<Rightarrow> Inr (x # xs))"

fun fetchApiDocumentation :: "World \<Rightarrow> ApiDocSource \<Rightarrow> error + json" where
  "fetchApiDocumentation w (Discovery discovery resolveRequests mergeStrategy) =
     (case fetchSingleDocument w discovery of
        Inl e \<Rightarrow> Inl e
      | Inr entry \<Rightarrow>
          (case resolveRequests entry of
             Inl e \<Rightarrow> Inl e
           | Inr followups \<Rightarrow>
               (let requests = ensureArray followups in
                if requests = [] then Inl (Error ''Discovery source returned no follow-up requests.'')
                else case awaitAll (map (fetchSingleDocument w) requests) of
                       Inl e \<Rightarrow> Inl e
                     | Inr documents \<Rightarrow> mergeDocuments documents mergeStrategy)))"
| "fetchApiDocumentation w (MultiEndpoint requests mergeStrategy) =
     (if requests = [] then Inl (Error ''Multi-endpoint source requires at least one request.'')
      else case awaitAll (map (fetchSingleDocument w) requests) of
             Inl e \<Rightarrow> Inl e
           | Inr documents \<Rightarrow> mergeDocuments documents mergeStrategy)"
| "fetchApiDocumentation w (Single spec) = fetchSingleDocument w spec"

section \<open>The invoke stage\<close>

text \<open>
  \<open>src/stage/extend/invoke/index.ts\<close> and \<open>contracts.ts\<close>. The service definition an
  adapter parses out of a payload is opaque to the stage: the type \<open>'svc\<close>.
\<close>

record InvokeSourceConfig =
  srcType :: string
  srcName :: "string option"
  srcRequest :: "ApiDocSource option"
  srcDocument :: "json option"
  srcOptions :: "json option"
  srcMetadata :: "(string \<times> json) list option"

record 'svc InvokeSourceAdapter =
  adapterType :: string
  canHandle :: "InvokeSourceConfig \<Rightarrow> bool"
  adapterFetch :: "InvokeSourceConfig \<Rightarrow> error + json"
  adapterParse :: "json \<Rightarrow> InvokeSourceConfig \<Rightarrow> error + 'svc"

record 'svc UnifiedInvokeDocument =
  docType :: string
  docName :: "string option"
  rawDocument :: json
  serviceDefinition :: 'svc
  docMetadata :: "(string \<times> json) list option"
  docAdapter :: string

record InvokeSourceError =
  errType :: string
  errName :: "string option"
  errMessage :: string
  errCause :: "error option"

record 'svc InvokeStageConfig =
  cfgSources :: "InvokeSourceConfig list"
  cfgAdapters :: "'svc InvokeSourceAdapter list option"
  cfgContinueOnError :: "bool option"
  cfgSkip :: bool

record 'svc InvokeStageResult =
  resDocuments :: "'svc UnifiedInvokeDocument list"
  resErrors :: "InvokeSourceError list option"

definition dq :: char where
  "dq = CHR 0x22"

fun messageOf :: "error \<Rightarrow> string" where
  "messageOf (Error m) = m"

text \<open>
  \<open>resolveAdapters\<close>: without custom adapters the stage's defaults; with them, a
  \<open>Map\<close> from type to adapter filled with the defaults and then the custom ones, so a
  custom adapter replaces the default of its type in that default's place.
\<close>

definition resolveAdapters ::
  "'svc InvokeSourceAdapter list \<Rightarrow> 'svc InvokeSourceAdapter list option \<Rightarrow> 'svc InvokeSourceAdapter list" where
  "resolveAdapters defaultAdapters custom =
     (case custom of
        None \<Rightarrow> defaultAdapters
      | Some [] \<Rightarrow> defaultAdapters
      | Some cs \<Rightarrow> map snd (assignAll [] (map (\<lambda>a. (adapterType a, a)) (defaultAdapters @ cs))))"

definition findAdapter ::
  "'svc InvokeSourceAdapter list \<Rightarrow> InvokeSourceConfig \<Rightarrow> 'svc InvokeSourceAdapter option" where
  "findAdapter ads source = find (\<lambda>adapter. canHandle adapter source) ads"

definition wrapError :: "string \<Rightarrow> string \<Rightarrow> error" where
  "wrapError ty message = Error (''[InvokeStage] Adapter '' @ [dq] @ ty @ [dq] @ '' failed: '' @ message)"

definition orElse :: "'a option \<Rightarrow> 'a \<Rightarrow> 'a" where
  "orElse v d = (case v of None \<Rightarrow> d | Some x \<Rightarrow> x)"

text \<open>
  One turn of the loop over \<open>config.sources\<close>: the adapter is looked up, then
  \<open>fetch\<close> and \<open>parse\<close> run inside one \<open>try\<close>. The outcome is the document pushed,
  or the error record pushed together with the error \<open>execute\<close> throws if
  \<open>continueOnError\<close> is off.
\<close>

definition invokeSource ::
  "'svc InvokeSourceAdapter list \<Rightarrow> InvokeSourceConfig \<Rightarrow>
   (InvokeSourceError \<times> error) + 'svc UnifiedInvokeDocument" where
  "invokeSource ads source =
     (case findAdapter ads source of
        None \<Rightarrow>
          (let message = ''No adapter registered for source type '' @ [dq] @ srcType source @ [dq] @ ''.''
           in Inl (\<lparr> errType = srcType source, errName = srcName source, errMessage = message,
                      errCause = None \<rparr>,
                   wrapError (srcType source) message))
      | Some adapter \<Rightarrow>
          (let failed = (\<lambda>e. Inl (\<lparr> errType = srcType source, errName = srcName source,
                                      errMessage = messageOf e, errCause = Some e \<rparr>,
                                   wrapError (adapterType adapter) (messageOf e)))
           in case adapterFetch adapter source of
                Inl e \<Rightarrow> failed e
              | Inr raw \<Rightarrow>
                  (case adapterParse adapter raw source of
                     Inl e \<Rightarrow> failed e
                   | Inr sd \<Rightarrow>
                       Inr \<lparr> docType = adapterType adapter,
                             docName = Some (orElse (srcName source) (adapterType adapter)),
                             rawDocument = raw,
                             serviceDefinition = sd,
                             docMetadata = srcMetadata source,
                             docAdapter = adapterType adapter \<rparr>)))"

fun invokeLoop ::
  "'svc InvokeSourceAdapter list \<Rightarrow> bool \<Rightarrow> InvokeSourceConfig list \<Rightarrow>
   'svc UnifiedInvokeDocument list \<Rightarrow> InvokeSourceError list \<Rightarrow>
   error + ('svc UnifiedInvokeDocument list \<times> InvokeSourceError list)" where
  "invokeLoop ads coe [] docs errs = Inr (docs, errs)"
| "invokeLoop ads coe (source # rest) docs errs =
     (case invokeSource ads source of
        Inl (err, thrown) \<Rightarrow>
          (if \<not> coe then Inl thrown else invokeLoop ads coe rest docs (errs @ [err]))
      | Inr doc \<Rightarrow> invokeLoop ads coe rest (docs @ [doc]) errs)"

text \<open>
  \<open>InvokeStage.execute\<close>. The result, when there is one, is also stored in the run
  context as \<open>invokeResults\<close>.
\<close>

definition execute ::
  "'svc InvokeSourceAdapter list \<Rightarrow> 'svc InvokeStageConfig option \<Rightarrow>
   error + 'svc InvokeStageResult option" where
  "execute defaultAdapters config =
     (case config of
        None \<Rightarrow> Inr None
      | Some cfg \<Rightarrow>
          if cfgSkip cfg then Inr None
          else if cfgSources cfg = [] then Inl (Error ''[InvokeStage] At least one source must be provided.'')
          else (case invokeLoop (resolveAdapters defaultAdapters (cfgAdapters cfg))
                       (orElse (cfgContinueOnError cfg) True) (cfgSources cfg) [] [] of
                  Inl e \<Rightarrow> Inl e
                | Inr (docs, errs) \<Rightarrow>
                    Inr (Some \<lparr> resDocuments = docs,
                                resErrors = (if errs \<noteq> [] then Some errs else None) \<rparr>)))"

section \<open>Selecting the primary document\<close>

text \<open>\<open>src/pipeline/index.ts\<close>: \<open>selectPrimaryDocument\<close> and the step of \<open>run\<close> that uses it.\<close>

definition matchesSource :: "InvokeSourceConfig \<Rightarrow> 'svc UnifiedInvokeDocument \<Rightarrow> bool" where
  "matchesSource source doc =
     (docName doc = Some (orElse (srcName source) (srcType source)) \<or> docType doc = srcType source)"

definition marksPrimary :: "'svc UnifiedInvokeDocument \<Rightarrow> bool" where
  "marksPrimary doc =
     (case docMetadata doc of None \<Rightarrow> False | Some md \<Rightarrow> map_of md ''primary'' = Some (JBool True))"

fun firstSourceMatch ::
  "InvokeSourceConfig list \<Rightarrow> 'svc UnifiedInvokeDocument list \<Rightarrow> 'svc UnifiedInvokeDocument option" where
  "firstSourceMatch [] docs = None"
| "firstSourceMatch (source # rest) docs =
     (case find (matchesSource source) docs of
        Some m \<Rightarrow> Some m
      | None \<Rightarrow> firstSourceMatch rest docs)"

definition selectPrimaryDocument ::
  "'svc InvokeStageResult option \<Rightarrow> 'svc InvokeStageConfig option \<Rightarrow> 'svc UnifiedInvokeDocument option" where
  "selectPrimaryDocument result config =
     (case result of
        None \<Rightarrow> None
      | Some r \<Rightarrow>
          if resDocuments r = [] then None
          else (case firstSourceMatch (case config of None \<Rightarrow> [] | Some cfg \<Rightarrow> cfgSources cfg) (resDocuments r) of
                  Some m \<Rightarrow> Some m
                | None \<Rightarrow>
                    (case find marksPrimary (resDocuments r) of
                       Some preferred \<Rightarrow> Some preferred
                     | None \<Rightarrow> Some (hd (resDocuments r)))))"

record 'svc DocSyncContext =
  ctxServiceDefinition :: "'svc option"
  ctxRawDocument :: "json option"
  ctxParserName :: "string option"
  ctxInvokeResults :: "'svc InvokeStageResult option"

text \<open>
  The step of \<open>DocSyncPipeline.run\<close> after the invoke stage: a context that has no
  service definition takes the primary document's; its raw payload and adapter name
  are taken where the context has none. \<open>stageResult\<close> is what the stage returned.
\<close>

definition adoptPrimary ::
  "'svc DocSyncContext \<Rightarrow> 'svc InvokeStageResult option \<Rightarrow> 'svc InvokeStageConfig option \<Rightarrow>
   'svc DocSyncContext" where
  "adoptPrimary ctx stageResult invokeConfig =
     (if ctxServiceDefinition ctx \<noteq> None then ctx
      else
        (let invokeResult = (case ctxInvokeResults ctx of Some r \<Rightarrow> Some r | None \<Rightarrow> stageResult)
         in case selectPrimaryDocument invokeResult invokeConfig of
              None \<Rightarrow> ctx
            | Some primaryDocument \<Rightarrow>
                ctx \<lparr> ctxServiceDefinition := Some (serviceDefinition primaryDocument),
                      ctxRawDocument :=
                        (case ctxRawDocument ctx of None \<Rightarrow> Some (rawDocument primaryDocument)
                         | Some raw \<Rightarrow> Some raw),
                      ctxParserName :=
                        (case ctxParserName ctx of None \<Rightarrow> Some (docAdapter primaryDocument)
                         | Some n \<Rightarrow> Some n) \<rparr>))"


section \<open>The schema converter\<close>

text \<open>
  \<open>src/stage/extend/invoke/utils/schema.ts\<close> and the \<open>Schema\<close> types of
  \<open>src/types.ts\<close>. Fields copied from the descriptor as they are (\<open>description\<close>,
  \<open>title\<close>, \<open>example\<close>, \<open>format\<close>, the values of an \<open>enum\<close>) stay JSON values.
  \<open>additionalProperties\<close> is absent, a boolean (\<open>Inl\<close>) or a schema (\<open>Inr\<close>).
\<close>

record BaseSchema =
  nullable :: bool
  description :: "json option"
  title :: "json option"
  example :: "json option"

datatype Schema =
    PrimitiveSchema string "json option" BaseSchema
  | ObjectSchema "(string \<times> Schema) list" "json list option" "(bool + Schema) option" BaseSchema
  | ArraySchema "Schema option" "int option" "int option" BaseSchema
  | EnumSchema json BaseSchema
  | OneOfSchema "Schema list" BaseSchema

fun kind :: "Schema \<Rightarrow> string" where
  "kind (PrimitiveSchema k _ _) = k"
| "kind (ObjectSchema _ _ _ _) = ''object''"
| "kind (ArraySchema _ _ _ _) = ''array''"
| "kind (EnumSchema _ _) = ''enum''"
| "kind (OneOfSchema _ _) = ''oneOf''"

fun baseOf :: "Schema \<Rightarrow> BaseSchema" where
  "baseOf (PrimitiveSchema _ _ b) = b"
| "baseOf (ObjectSchema _ _ _ b) = b"
| "baseOf (ArraySchema _ _ _ b) = b"
| "baseOf (EnumSchema _ b) = b"
| "baseOf (OneOfSchema _ b) = b"

fun firstOf :: "'a list \<Rightarrow> 'a option" where
  "firstOf [] = None"
| "firstOf (x # _) = Some x"

fun index0 :: "json \<Rightarrow> json option" where
  "index0 (JArr vs) = firstOf vs"
| "index0 (JStr s) = map_option (\<lambda>c. JStr [c]) (firstOf s)"
| "index0 (JObj kvs) = map_of kvs ''0''"
| "index0 _ = None"

definition nullish :: "json option \<Rightarrow> bool" where
  "nullish v = (v = None \<or> v = Some JNull)"

definition exampleOf :: "json \<Rightarrow> json option" where
  "exampleOf input =
     (if \<not> nullish (getProp input ''example'') then getProp input ''example''
      else case getProp input ''examples'' of
             None \<Rightarrow> None
           | Some JNull \<Rightarrow> None
           | Some ex \<Rightarrow> index0 ex)"

definition baseFields :: "json \<Rightarrow> BaseSchema" where
  "baseFields input =
     \<lparr> nullable = truthyOpt (getProp input ''nullable''),
       description = getProp input ''description'',
       title = getProp input ''title'',
       example = exampleOf input \<rparr>"

definition typeStrOf :: "json option \<Rightarrow> json option" where
  "typeStrOf ty =
     (case ty of
        Some (JArr ts) \<Rightarrow>
          (if JStr ''null'' \<in> set ts then
             (case find (\<lambda>t. t \<noteq> JStr ''null'') ts of
                Some t \<Rightarrow> if truthy t then Some t else firstOf ts
              | None \<Rightarrow> firstOf ts)
           else firstOf ts)
      | _ \<Rightarrow> ty)"

definition numberOf :: "json option \<Rightarrow> int option" where
  "numberOf v = (case v of Some (JNum n) \<Rightarrow> Some n | _ \<Rightarrow> None)"

definition arrayOf :: "json option \<Rightarrow> json list option" where
  "arrayOf v = (case v of Some (JArr xs) \<Rightarrow> Some xs | _ \<Rightarrow> None)"

definition orEmpty :: "json option \<Rightarrow> json" where
  "orEmpty v = (case v of None \<Rightarrow> JObj [] | Some x \<Rightarrow> if truthy x then x else JObj [])"

definition notAFunction :: "string \<Rightarrow> error" where
  "notAFunction what = Error (''TypeError: '' @ what @ ''.map is not a function'')"

fun valuesSize :: "(string \<times> json) list \<Rightarrow> nat" where
  "valuesSize [] = 0"
| "valuesSize ((k, v) # rest) = size v + valuesSize rest"

text \<open>
  The converter recurses into values it reads out of the descriptor. They are smaller
  than the descriptor, which is what its termination rests on.
\<close>

lemma size_map_of: "map_of kvs k = Some v \<Longrightarrow> size v < size (JObj kvs)"
  by (induction kvs) (auto split: if_splits)

lemma size_getProp: "getProp input k = Some v \<Longrightarrow> size v < size input"
  by (cases input) (auto dest: size_map_of)

lemma valuesSize_indexed_aux:
  "valuesSize (zip ks vs) \<le> size_list size vs"
  by (induction ks vs rule: list_induct2') auto

lemma valuesSize_chars: "valuesSize (zip ks (map (\<lambda>c. JStr [c]) s)) = 0"
  by (induction ks s rule: list_induct2') auto

lemma valuesSize_obj: "valuesSize kvs \<le> size_list (size_prod (\<lambda>x. 0) size) kvs"
  by (induction kvs) auto

lemma valuesSize_entries: "valuesSize (entries v) \<le> size v"
proof (cases v)
  case (JArr vs)
  then show ?thesis using valuesSize_indexed_aux[of "map showNat [0..<length vs]" vs]
    by (simp add: indexed_def)
next
  case (JObj kvs)
  then show ?thesis using valuesSize_obj[of kvs] by simp
qed (simp_all add: indexed_def valuesSize_chars)

lemma valuesSize_orEmpty:
  assumes "isObjectLike input"
  shows "valuesSize (entries (orEmpty (getProp input k))) < size input"
proof (cases "getProp input k")
  case None
  then show ?thesis using assms by (cases input) (simp_all add: orEmpty_def)
next
  case (Some x)
  then have lt: "size x < size input" by (simp add: size_getProp)
  show ?thesis
  proof (cases "truthy x")
    case True
    then show ?thesis using Some lt valuesSize_entries[of x] by (simp add: orEmpty_def)
  next
    case False
    then show ?thesis using Some assms by (cases input) (simp_all add: orEmpty_def)
  qed
qed

lemma size_getProp_opt:
  assumes "isObjectLike input"
  shows "(case getProp input k of None \<Rightarrow> 0 | Some j \<Rightarrow> size j) < size input"
proof (cases "getProp input k")
  case None
  then show ?thesis using assms by (cases input) simp_all
next
  case (Some x)
  then show ?thesis by (simp add: size_getProp)
qed

text \<open>
  \<open>jsonSchemaToSchema\<close>. \<open>convertProperties\<close> is its loop over
  \<open>Object.keys(props)\<close>, \<open>convertVariants\<close> the \<open>map\<close> and \<open>filter(Boolean)\<close>
  over \<open>oneOf\<close> or \<open>anyOf\<close>; calling \<open>map\<close> on a value that is not an array
  throws a \<open>TypeError\<close>.
\<close>

function jsonSchemaToSchema :: "json option \<Rightarrow> error + Schema option"
  and convertProperties :: "(string \<times> json) list \<Rightarrow> (string \<times> Schema) list \<Rightarrow> error + (string \<times> Schema) list"
  and convertVariants :: "json list \<Rightarrow> error + Schema list"
where
  "jsonSchemaToSchema None = Inr None"
| "jsonSchemaToSchema (Some input) =
     (if \<not> truthy input \<or> \<not> isObjectLike input then Inr None
      else
        (let base = baseFields input;
             typeStr = typeStrOf (getProp input ''type'')
         in
         if \<not> truthyOpt typeStr then
           (if truthyOpt (getProp input ''oneOf'') then
              (case getProp input ''oneOf'' of
                 Some (JArr vs) \<Rightarrow>
                   (case convertVariants vs of
                      Inl e \<Rightarrow> Inl e
                    | Inr variants \<Rightarrow> Inr (Some (OneOfSchema variants base)))
               | _ \<Rightarrow> Inl (notAFunction ''input.oneOf''))
            else if truthyOpt (getProp input ''anyOf'') then
              (case getProp input ''anyOf'' of
                 Some (JArr vs) \<Rightarrow>
                   (case convertVariants vs of
                      Inl e \<Rightarrow> Inl e
                    | Inr variants \<Rightarrow> Inr (Some (OneOfSchema variants base)))
               | _ \<Rightarrow> Inl (notAFunction ''input.anyOf''))
            else
              (case getProp input ''enum'' of
                 Some vals \<Rightarrow>
                   if truthy vals then Inr (Some (EnumSchema vals base))
                   else Inr (Some (PrimitiveSchema ''unknown'' None base))
               | None \<Rightarrow> Inr (Some (PrimitiveSchema ''unknown'' None base))))
         else if typeStr = Some (JStr ''object'') then
           (case convertProperties (entries (orEmpty (getProp input ''properties''))) [] of
              Inl e \<Rightarrow> Inl e
            | Inr properties \<Rightarrow>
                (let required = arrayOf (getProp input ''required'') in
                 case getProp input ''additionalProperties'' of
                   Some (JBool b) \<Rightarrow> Inr (Some (ObjectSchema properties required (Some (Inl b)) base))
                 | Some additional \<Rightarrow>
                     if truthy additional \<and> isObjectLike additional then
                       (case jsonSchemaToSchema (Some additional) of
                          Inl e \<Rightarrow> Inl e
                        | Inr converted \<Rightarrow>
                            Inr (Some (ObjectSchema properties required (map_option Inr converted) base)))
                     else Inr (Some (ObjectSchema properties required None base))
                 | None \<Rightarrow> Inr (Some (ObjectSchema properties required None base))))
         else if typeStr = Some (JStr ''array'') then
           (case jsonSchemaToSchema (getProp input ''items'') of
              Inl e \<Rightarrow> Inl e
            | Inr element \<Rightarrow>
                Inr (Some (ArraySchema element (numberOf (getProp input ''minItems''))
                             (numberOf (getProp input ''maxItems'')) base)))
         else if typeStr = Some (JStr ''string'') \<or> typeStr = Some (JStr ''number'')
                 \<or> typeStr = Some (JStr ''integer'') \<or> typeStr = Some (JStr ''boolean'')
                 \<or> typeStr = Some (JStr ''null'') then
           (case typeStr of
              Some (JStr k) \<Rightarrow> Inr (Some (PrimitiveSchema k (getProp input ''format'') base))
            | _ \<Rightarrow> Inr (Some (PrimitiveSchema ''unknown'' None base)))
         else Inr (Some (PrimitiveSchema ''unknown'' None base))))"
| "convertProperties [] properties = Inr properties"
| "convertProperties ((key, value) # rest) properties =
     (case jsonSchemaToSchema (Some value) of
        Inl e \<Rightarrow> Inl e
      | Inr None \<Rightarrow> convertProperties rest properties
      | Inr (Some child) \<Rightarrow> convertProperties rest (objSet key child properties))"
| "convertVariants [] = Inr []"
| "convertVariants (v # vs) =
     (case jsonSchemaToSchema (Some v) of
        Inl e \<Rightarrow> Inl e
      | Inr converted \<Rightarrow>
          (case convertVariants vs of
             Inl e \<Rightarrow> Inl e
           | Inr others \<Rightarrow> Inr ((case converted of None \<Rightarrow> [] | Some s \<Rightarrow> [s]) @ others)))"
  by pat_completeness auto
termination
proof (relation "inv_image (measure id <*lex*> measure id)
     (\<lambda>x. case x of
        Inl v \<Rightarrow> (case v of None \<Rightarrow> 0 | Some j \<Rightarrow> size j, 0)
      | Inr (Inl (kvs, acc)) \<Rightarrow> (valuesSize kvs, Suc (length kvs))
      | Inr (Inr vs) \<Rightarrow> (size_list size vs, Suc (length vs)))", goal_cases)
  case 1
  show ?case by (intro wf_inv_image wf_lex_prod wf_measure)
qed (auto dest: size_getProp simp: valuesSize_orEmpty size_getProp_opt)

declare jsonSchemaToSchema.simps [simp del]

section \<open>The code generator\<close>

text \<open>
  \<open>src/stage/extend/generator/generator.ts\<close>, with the service model of
  \<open>src/types.ts\<close>. Strings are ASCII: \<open>\\s\<close> and \<open>trim\<close> see the six ASCII
  white-space characters, and the letter classes are the ASCII ones.
\<close>

datatype HttpMethod = GET | POST | PUT | DELETE | PATCH | HEAD | OPTIONS

fun methodName :: "HttpMethod \<Rightarrow> string" where
  "methodName GET = ''GET''"
| "methodName POST = ''POST''"
| "methodName PUT = ''PUT''"
| "methodName DELETE = ''DELETE''"
| "methodName PATCH = ''PATCH''"
| "methodName HEAD = ''HEAD''"
| "methodName OPTIONS = ''OPTIONS''"

record ParameterDefinition =
  prmName :: string
  prmIn :: string
  prmRequired :: "bool option"
  prmDescription :: "string option"
  prmSchema :: "Schema option"
  prmExample :: "json option"
  prmStyle :: "string option"

record RequestBodyDefinition =
  bodyRequired :: "bool option"
  bodyContentType :: "string option"
  bodySchema :: "Schema option"

record ResponseDefinition =
  rspStatus :: "(int + unit) option"
  rspDescription :: "string option"
  rspContentType :: "string option"
  rspSchema :: "Schema option"

record EndpointParameters =
  inPath :: "ParameterDefinition list option"
  inQuery :: "ParameterDefinition list option"
  inHeader :: "ParameterDefinition list option"

record EndpointDefinition =
  epId :: string
  epName :: "string option"
  epDescription :: "string option"
  epPath :: string
  epMethod :: HttpMethod
  epTags :: "string list option"
  epParameters :: "EndpointParameters option"
  epBody :: "RequestBodyDefinition option"
  epResponses :: "ResponseDefinition list option"

record ServiceSource =
  sourceKind :: string
  sourceRaw :: "json option"

record ServiceDefinition =
  svcTitle :: "string option"
  svcVersion :: "string option"
  svcDescription :: "string option"
  svcServers :: "string list option"
  svcTypes :: "(string \<times> Schema) list option"
  svcEndpoints :: "EndpointDefinition list"
  svcSource :: "ServiceSource option"

record CodegenOptions =
  entryFileName :: "string option"
  fileExtension :: "string option"

record GeneratedFile =
  filename :: string
  content :: string

record GeneratedBundle =
  entrypoint :: string
  files :: "GeneratedFile list"

definition sq :: char where
  "sq = CHR 0x27"

definition nl :: char where
  "nl = CHR 0x0A"

definition isDigit :: "char \<Rightarrow> bool" where
  "isDigit c = (c \<in> set ''0123456789'')"

definition lowerLetters :: string where
  "lowerLetters = ''abcdefghijklmnopqrstuvwxyz''"

definition upperLetters :: string where
  "upperLetters = ''ABCDEFGHIJKLMNOPQRSTUVWXYZ''"

definition isLower :: "char \<Rightarrow> bool" where
  "isLower c = (c \<in> set lowerLetters)"

definition isUpper :: "char \<Rightarrow> bool" where
  "isUpper c = (c \<in> set upperLetters)"

definition isAlnum :: "char \<Rightarrow> bool" where
  "isAlnum c = (isLower c \<or> isUpper c \<or> isDigit c)"

definition isSpace :: "char \<Rightarrow> bool" where
  "isSpace c = (c \<in> set [CHR 0x20, CHR 0x09, CHR 0x0A, CHR 0x0B, CHR 0x0C, CHR 0x0D])"

definition toUpperChar :: "char \<Rightarrow> char" where
  "toUpperChar c = (case map_of (zip lowerLetters upperLetters) c of Some u \<Rightarrow> u | None \<Rightarrow> c)"

definition toLowerChar :: "char \<Rightarrow> char" where
  "toLowerChar c = (case map_of (zip upperLetters lowerLetters) c of Some l \<Rightarrow> l | None \<Rightarrow> c)"

definition toLowerCase :: "string \<Rightarrow> string" where
  "toLowerCase s = map toLowerChar s"

definition trim :: "string \<Rightarrow> string" where
  "trim s = rev (dropWhile isSpace (rev (dropWhile isSpace s)))"

definition endsWith :: "string \<Rightarrow> string \<Rightarrow> bool" where
  "endsWith s p = suffix p s"

fun joinWith :: "string \<Rightarrow> string list \<Rightarrow> string" where
  "joinWith sep [] = []"
| "joinWith sep [x] = x"
| "joinWith sep (x # y # rest) = x @ sep @ joinWith sep (y # rest)"

text \<open>\<open>s.split(sep)\<close> for a one-character separator: every occurrence splits.\<close>

fun splitChar :: "char \<Rightarrow> string \<Rightarrow> string list" where
  "splitChar sep [] = [[]]"
| "splitChar sep (c # cs) =
     (if c = sep then [] # splitChar sep cs
      else case splitChar sep cs of
             w # ws \<Rightarrow> (c # w) # ws
           | [] \<Rightarrow> [[c]])"

text \<open>
  \<open>s.split(/[...]+/)\<close>: the separators are the maximal runs of characters in the
  class \<open>p\<close>. \<open>inRun\<close> says that the character before was part of a run.
\<close>

fun splitRuns :: "(char \<Rightarrow> bool) \<Rightarrow> bool \<Rightarrow> string \<Rightarrow> string \<Rightarrow> string list" where
  "splitRuns p inRun cur [] = [cur]"
| "splitRuns p inRun cur (c # cs) =
     (if p c then (if inRun then splitRuns p True cur cs else cur # splitRuns p True [] cs)
      else splitRuns p False (cur @ [c]) cs)"

text \<open>\<open>s.replace(/[...]+/g, rep)\<close>: every maximal run is replaced by \<open>rep\<close>.\<close>

fun replaceRuns :: "(char \<Rightarrow> bool) \<Rightarrow> string \<Rightarrow> bool \<Rightarrow> string \<Rightarrow> string" where
  "replaceRuns p rep inRun [] = []"
| "replaceRuns p rep inRun (c # cs) =
     (if p c then (if inRun then replaceRuns p rep True cs else rep @ replaceRuns p rep True cs)
      else c # replaceRuns p rep False cs)"

definition safeId :: "string \<Rightarrow> string" where
  "safeId ident =
     (let cleaned = map (\<lambda>c. if isAlnum c \<or> c = CHR ''_'' then c else CHR ''_'') ident
      in case cleaned of
           c # _ \<Rightarrow> if isDigit c then CHR ''_'' # cleaned else cleaned
         | [] \<Rightarrow> cleaned)"

fun capitalize :: "string \<Rightarrow> string" where
  "capitalize [] = []"
| "capitalize (c # cs) = toUpperChar c # cs"

definition toPascalCase :: "string \<Rightarrow> string" where
  "toPascalCase v =
     concat (map capitalize
       (filter (\<lambda>part. part \<noteq> [])
          (splitRuns (\<lambda>c. c = CHR ''_'' \<or> isSpace c) False [] (safeId v))))"

text \<open>
  \<open>replace(/([a-z0-9])([A-Z])/g, '$1-$2')\<close>: matches do not overlap, the scan
  goes on after the capital letter.
\<close>

fun hyphenate :: "string \<Rightarrow> string" where
  "hyphenate (a # b # rest) =
     (if (isLower a \<or> isDigit a) \<and> isUpper b then a # CHR ''-'' # b # hyphenate rest
      else a # hyphenate (b # rest))"
| "hyphenate s = s"

definition toKebabCase :: "string \<Rightarrow> string" where
  "toKebabCase v = toLowerCase (replaceRuns isSpace ''-'' False (hyphenate (toPascalCase v)))"

definition normalizePathSegment :: "string \<Rightarrow> nat \<Rightarrow> string" where
  "normalizePathSegment segment index =
     (let unwrapped =
            trim (dropWhile (\<lambda>c. c = CHR '':'')
                    (rev (dropWhile (\<lambda>c. c = CHR ''}'')
                            (rev (dropWhile (\<lambda>c. c = CHR ''{'') segment)))))
      in if unwrapped = [] then ''part-'' @ showNat (index + 1)
         else
           (let cleaned = trim (replaceRuns (\<lambda>c. \<not> isAlnum c) '' '' False unwrapped);
                kebab = (if cleaned \<noteq> [] then toKebabCase cleaned else [])
            in if kebab \<noteq> [] then kebab else ''part-'' @ showNat (index + 1)))"

definition enumerate0 :: "'a list \<Rightarrow> ('a \<times> nat) list" where
  "enumerate0 xs = zip xs [0..<length xs]"

definition extractPathSegments :: "string \<Rightarrow> string \<Rightarrow> nat \<Rightarrow> string list" where
  "extractPathSegments pathValue fallbackBase fallbackIndex =
     (let rawSegments = filter (\<lambda>segment. segment \<noteq> []) (map trim (splitChar CHR ''/'' pathValue));
          normalized = map (\<lambda>(segment, idx). normalizePathSegment segment idx) (enumerate0 rawSegments)
      in if normalized \<noteq> [] then normalized
         else [let fallback = toKebabCase fallbackBase
               in if fallback \<noteq> [] then fallback else ''endpoint-'' @ showNat (fallbackIndex + 1)])"

text \<open>
  The functions that only produce the text inside a file are parameters of the model,
  gathered in \<open>Templates\<close>: the source of the transport file, \<open>schemaToTs\<close>, and
  the four renderers \<open>renderEndpointFile\<close> calls (the request type with its
  \<open>hasRequiredFields\<close>, the response type with its content type, the executor type,
  the client class). Every theorem below holds for whatever text they produce.
\<close>

record Templates =
  transportSource :: string
  schemaToTs :: "Schema option \<Rightarrow> nat \<Rightarrow> string"
  renderRequestType :: "string \<Rightarrow> EndpointDefinition \<Rightarrow> string \<times> bool"
  renderResponseType :: "string \<Rightarrow> EndpointDefinition \<Rightarrow> string \<times> string option"
  renderExecutorInterface :: "string \<Rightarrow> bool \<Rightarrow> string"
  renderClientClass :: "string \<Rightarrow> EndpointDefinition \<Rightarrow> bool \<Rightarrow> string option \<Rightarrow> string"

definition stripTsSuffix :: "string \<Rightarrow> string" where
  "stripTsSuffix f = (if endsWith f ''.ts'' then take (length f - 3) f else f)"

text \<open>
  Node's \<open>path.posix\<close> on the paths that occur here: relative paths whose segments
  are non-empty and are neither \<open>.\<close> nor \<open>..\<close>, which \<open>join\<close> has nothing to
  normalise in. \<open>relative\<close> drops the common leading segments, climbs out of what is
  left of the origin and descends into what is left of the target.
\<close>

definition pathJoin :: "string list \<Rightarrow> string" where
  "pathJoin parts = joinWith ''/'' parts"

definition pathSegments :: "string \<Rightarrow> string list" where
  "pathSegments p = filter (\<lambda>s. s \<noteq> [] \<and> s \<noteq> ''.'') (splitChar CHR ''/'' p)"

definition pathDirname :: "string \<Rightarrow> string" where
  "pathDirname p =
     (let parts = splitChar CHR ''/'' p
      in if length parts \<le> 1 then ''.'' else joinWith ''/'' (butlast parts))"

definition pathBasename :: "string \<Rightarrow> string" where
  "pathBasename p = last (splitChar CHR ''/'' p)"

fun dropCommon :: "string list \<Rightarrow> string list \<Rightarrow> string list \<times> string list" where
  "dropCommon (a # as) (b # bs) = (if a = b then dropCommon as bs else (a # as, b # bs))"
| "dropCommon as bs = (as, bs)"

definition pathRelative :: "string \<Rightarrow> string \<Rightarrow> string" where
  "pathRelative fromDir target =
     (case dropCommon (pathSegments fromDir) (pathSegments target) of
        (up, down) \<Rightarrow> joinWith ''/'' (replicate (length up) ''..'' @ down))"

definition computeRelativeModulePath :: "string \<Rightarrow> string \<Rightarrow> string" where
  "computeRelativeModulePath fromFilename targetFilename =
     (let fromDir = pathDirname fromFilename;
          targetWithoutExt = stripTsSuffix targetFilename;
          relative = pathRelative fromDir targetWithoutExt
      in if relative = [] then ''./'' @ pathBasename targetWithoutExt
         else if \<not> startsWith relative ''.'' then ''./'' @ relative
         else relative)"

record EndpointFileRenderConfig =
  cfgFilename :: string
  cfgTransportImportPath :: string

definition truthyName :: "string option \<Rightarrow> string \<Rightarrow> string" where
  "truthyName name fallback =
     (case name of None \<Rightarrow> fallback | Some n \<Rightarrow> if n \<noteq> [] then n else fallback)"

definition renderEndpointFile :: "Templates \<Rightarrow> EndpointDefinition \<Rightarrow> EndpointFileRenderConfig \<Rightarrow> GeneratedFile" where
  "renderEndpointFile T endpoint config =
     (let baseName = truthyName (epName endpoint) (epId endpoint);
          className = toPascalCase baseName;
          request = renderRequestType T className endpoint;
          response = renderResponseType T className endpoint;
          executor = renderExecutorInterface T className (snd request);
          clientClass = renderClientClass T className endpoint (snd request) (snd response);
          parts =
            [ ''/**'',
              '' * Auto-generated for '' @ methodName (epMethod endpoint) @ '' '' @ epPath endpoint,
              '' */'',
              '''',
              ''import { BaseFetchClient, type EndpointExecutor, type FetchClientConfig } from ''
                @ [sq] @ cfgTransportImportPath config @ [sq] @ '';'',
              '''',
              fst request,
              '''',
              fst response,
              '''',
              executor,
              '''',
              clientClass,
              '''' ]
      in \<lparr> filename = cfgFilename config, content = joinWith [nl] parts \<rparr>)"

definition renderTypesFile :: "Templates \<Rightarrow> ServiceDefinition \<Rightarrow> GeneratedFile option" where
  "renderTypesFile T service =
     (let tyEntries = (case svcTypes service of None \<Rightarrow> [] | Some ts \<Rightarrow> ts)
      in if tyEntries = [] then None
         else Some \<lparr> filename = ''types.ts'',
                     content = joinWith [nl]
                       ([''/**'', '' * Normalized component schemas.'', '' */'', '''']
                        @ concat (map (\<lambda>(name, schema).
                                    [ ''export type '' @ toPascalCase name @ '' = ''
                                        @ schemaToTs T (Some schema) 0 @ '';'',
                                      '''' ]) tyEntries)) \<rparr>)"

definition renderTransportFile :: "Templates \<Rightarrow> GeneratedFile" where
  "renderTransportFile T = \<lparr> filename = ''transport.ts'', content = transportSource T \<rparr>"

text \<open>\<open>pathUsageCounts.set(key, (pathUsageCounts.get(key) ?? 0) + 1)\<close>.\<close>

definition countKey :: "(string \<times> nat) list \<Rightarrow> string \<Rightarrow> (string \<times> nat) list" where
  "countKey counts key =
     objSet key ((case map_of counts key of None \<Rightarrow> 0 | Some n \<Rightarrow> n) + 1) counts"

definition exportLine :: "string \<Rightarrow> string" where
  "exportLine name = ''export * from '' @ [sq] @ ''./'' @ stripTsSuffix name @ [sq] @ '';''"

text \<open>
  The file name of one endpoint, from the body of the \<open>map\<close> over
  \<open>endpointInfos\<close>: the HTTP method is appended when the segment path is used more
  than once.
\<close>

definition endpointFilename :: "(string \<times> nat) list \<Rightarrow> EndpointDefinition \<Rightarrow> string list \<Rightarrow> string" where
  "endpointFilename pathUsageCounts endpoint segments =
     (let key = joinWith ''/'' segments;
          occurrence = (case map_of pathUsageCounts key of None \<Rightarrow> 0 | Some n \<Rightarrow> n);
          dirSegments = (if length segments > 1 then butlast segments else segments);
          baseSegment = (if segments = [] then ''endpoint'' else last segments);
          fileBase = (if occurrence > 1
                      then baseSegment @ ''-'' @ toLowerCase (methodName (epMethod endpoint))
                      else baseSegment)
      in if dirSegments \<noteq> [] then pathJoin (dirSegments @ [fileBase @ ''.ts''])
         else fileBase @ ''.ts'')"

definition generateClientSource :: "Templates \<Rightarrow> ServiceDefinition \<Rightarrow> CodegenOptions option \<Rightarrow> GeneratedBundle" where
  "generateClientSource T service options =
     (let entryName =
            (case options of None \<Rightarrow> ''index.ts''
             | Some opts \<Rightarrow> truthyName (entryFileName opts) ''index.ts'');
          extension =
            (case options of None \<Rightarrow> ''ts''
             | Some opts \<Rightarrow> truthyName (fileExtension opts) ''ts'');
          transportFile = renderTransportFile T;
          endpointInfos =
            map (\<lambda>(endpoint, index).
                   (endpoint,
                    extractPathSegments (epPath endpoint)
                      (truthyName (epName endpoint) (epId endpoint)) index))
                (enumerate0 (svcEndpoints service));
          pathUsageCounts =
            foldl (\<lambda>counts info. countKey counts (joinWith ''/'' (snd info))) [] endpointInfos;
          endpointFiles =
            map (\<lambda>(endpoint, segments).
                   (let name = endpointFilename pathUsageCounts endpoint segments
                    in renderEndpointFile T endpoint
                         \<lparr> cfgFilename = name,
                           cfgTransportImportPath =
                             computeRelativeModulePath name (filename transportFile) \<rparr>))
                endpointInfos;
          exportLines0 = map (\<lambda>file. exportLine (filename file)) endpointFiles;
          files0 = transportFile # endpointFiles;
          typesFile = renderTypesFile T service;
          files1 = (case typesFile of None \<Rightarrow> files0
                    | Some tf \<Rightarrow> take 1 files0 @ [tf] @ drop 1 files0);
          exportLines1 = (case typesFile of None \<Rightarrow> exportLines0
                          | Some tf \<Rightarrow> exportLine (filename tf) # exportLines0);
          exportLines2 = exportLine (filename transportFile) # exportLines1;
          entryFile =
            \<lparr> filename = (if endsWith entryName (''.'' @ extension) then entryName
                           else entryName @ ''.'' @ extension),
              content = joinWith [nl] exportLines2 @ [nl] \<rparr>
      in \<lparr> entrypoint = filename entryFile, files = entryFile # files1 \<rparr>)"

section \<open>The normalizer stage\<close>

text \<open>
  \<open>src/stage/extend/normalizer-stage.ts\<close>. The stage clones the service definition and
  lets the transforms and extensions of its configuration work on the clone. Whether the
  object it was given stays as it was is a statement about object identity, so service
  definitions live in an explicit store here: a heap is a list of cells, an address is an
  index into it, a cell is an object (its properties in insertion order) or an array, and
  a value is a primitive or a reference to a cell. Allocation appends a cell.
\<close>

type_synonym addr = nat

datatype val = VUndefined | VNull | VBool bool | VNum int | VStr string | VRef addr

datatype cell = Obj "(string \<times> val) list" | Arr "val list"

type_synonym heap = "cell list"

text \<open>The cells that can be reached from a set of addresses by following references.\<close>

fun cellVals :: "cell \<Rightarrow> val list" where
  "cellVals (Obj kvs) = map snd kvs"
| "cellVals (Arr vs) = vs"

fun valRefs :: "val \<Rightarrow> addr set" where
  "valRefs (VRef a) = {a}"
| "valRefs _ = {}"

definition cellRefs :: "cell \<Rightarrow> addr set" where
  "cellRefs c = (\<Union>v \<in> set (cellVals c). valRefs v)"

inductive_set reach :: "heap \<Rightarrow> addr set \<Rightarrow> addr set" for h :: heap and roots :: "addr set" where
  root: "a \<in> roots \<Longrightarrow> a < length h \<Longrightarrow> a \<in> reach h roots"
| step: "a \<in> reach h roots \<Longrightarrow> b \<in> cellRefs (h ! a) \<Longrightarrow> b < length h \<Longrightarrow> b \<in> reach h roots"

text \<open>
  \<open>cloneService\<close>. \<open>structuredClone\<close> copies every reachable cell once and keeps sharing and
  cycles: a memo maps the cells already copied to their copies, and a cell is entered in
  it before its contents are copied. \<open>JSON.parse(JSON.stringify(service))\<close> copies a shared
  cell once for each path to it, leaves out the properties that are \<open>undefined\<close>, turns an
  \<open>undefined\<close> array element into \<open>null\<close>, and does not end on a cycle. Both recurse;
  the depth the platform allows is the fuel, and running out of it is the exception
  (\<open>None\<close>). An exception of \<open>structuredClone\<close> is caught and the JSON copy is tried
  instead; an exception of the JSON copy leaves the stage.
\<close>

datatype CloneMode = Structured | ViaJSON

fun blank :: "cell \<Rightarrow> cell" where
  "blank (Obj _) = Obj []"
| "blank (Arr _) = Arr []"

fun rebuild :: "cell \<Rightarrow> val list \<Rightarrow> cell" where
  "rebuild (Obj kvs) vs = Obj (zip (map fst kvs) vs)"
| "rebuild (Arr _) vs = Arr vs"

fun jsonView :: "cell \<Rightarrow> cell" where
  "jsonView (Obj kvs) = Obj (filter (\<lambda>(k, v). v \<noteq> VUndefined) kvs)"
| "jsonView (Arr vs) = Arr (map (\<lambda>v. if v = VUndefined then VNull else v) vs)"

fun copyVal :: "CloneMode \<Rightarrow> nat \<Rightarrow> (addr \<times> addr) list \<Rightarrow> heap \<Rightarrow> val \<Rightarrow>
                ((addr \<times> addr) list \<times> heap \<times> val) option"
  and copyVals :: "CloneMode \<Rightarrow> nat \<Rightarrow> (addr \<times> addr) list \<Rightarrow> heap \<Rightarrow> val list \<Rightarrow>
                ((addr \<times> addr) list \<times> heap \<times> val list) option"
where
  "copyVal mode 0 memo h (VRef a) = None"
| "copyVal mode (Suc n) memo h (VRef a) =
     (if length h \<le> a then None
      else case mode of
        Structured \<Rightarrow>
          (case map_of memo a of
             Some a' \<Rightarrow> Some (memo, h, VRef a')
           | None \<Rightarrow>
               (let a' = length h in
                case copyVals mode n ((a, a') # memo) (h @ [blank (h ! a)]) (cellVals (h ! a)) of
                  None \<Rightarrow> None
                | Some (memo', h', vs) \<Rightarrow> Some (memo', h'[a' := rebuild (h ! a) vs], VRef a')))
      | ViaJSON \<Rightarrow>
          (case copyVals mode n memo h (cellVals (jsonView (h ! a))) of
             None \<Rightarrow> None
           | Some (memo', h', vs) \<Rightarrow>
               Some (memo', h' @ [rebuild (jsonView (h ! a)) vs], VRef (length h'))))"
| "copyVal mode n memo h v = Some (memo, h, v)"
| "copyVals mode n memo h [] = Some (memo, h, [])"
| "copyVals mode n memo h (v # vs) =
     (case copyVal mode n memo h v of
        None \<Rightarrow> None
      | Some (memo1, h1, v') \<Rightarrow>
          (case copyVals mode n memo1 h1 vs of
             None \<Rightarrow> None
           | Some (memo2, h2, vs') \<Rightarrow> Some (memo2, h2, v' # vs')))"

record Platform =
  hasStructuredClone :: bool
  stackDepth :: nat

definition cloneError :: error where
  "cloneError = Error ''TypeError: Converting circular structure to JSON''"

definition cloneService :: "Platform \<Rightarrow> heap \<Rightarrow> addr \<Rightarrow> error + (heap \<times> addr)" where
  "cloneService env h service =
     (case (if hasStructuredClone env then copyVal Structured (stackDepth env) [] h (VRef service)
            else None) of
        Some (memo, h', VRef a) \<Rightarrow> Inr (h', a)
      | _ \<Rightarrow>
          (case copyVal ViaJSON (stackDepth env) [] h (VRef service) of
             Some (memo, h', VRef a) \<Rightarrow> Inr (h', a)
           | _ \<Rightarrow> Inl cloneError))"

text \<open>
  A transform is a function of the configuration; it is handed the working definition and
  may change the store, throw, and return a replacement (\<open>Some\<close>) or nothing. An
  extension's \<open>normalize\<close> is handed an input payload and returns a schema or nothing.
\<close>

record Transform =
  transformName :: string
  transformRun :: "heap \<Rightarrow> addr \<Rightarrow> heap \<times> (error + addr option)"

record NormalizerExtension =
  extensionName :: string
  extensionNormalize :: "heap \<Rightarrow> val \<Rightarrow> heap \<times> (error + addr option)"

record NormalizerInput =
  inputKey :: "string option"
  inputPayload :: val

record NormalizerStageConfig =
  nService :: "addr option"
  nTransforms :: "Transform list option"
  nExtensions :: "NormalizerExtension list option"
  nInputs :: "NormalizerInput list option"
  nSkip :: bool

record NormalizerContext =
  normalizedService :: "addr option"
  contextService :: "addr option"

record NormalizerStageResult =
  resultService :: addr
  normalizedTypes :: "addr option"
  appliedTransforms :: "string list option"
  appliedExtensions :: "string list option"

text \<open>
  The loop over \<open>config.transforms\<close>: the tag is pushed after the transform has returned,
  and a result that is truthy and not the working object itself replaces it.
\<close>

fun runTransforms ::
  "Transform list \<Rightarrow> nat \<Rightarrow> heap \<Rightarrow> addr \<Rightarrow> string list \<Rightarrow>
   heap \<times> (error + (addr \<times> string list))" where
  "runTransforms [] idx h working applied = (h, Inr (working, applied))"
| "runTransforms (t # ts) idx h working applied =
     (case transformRun t h working of
        (h', Inl e) \<Rightarrow> (h', Inl e)
      | (h', Inr maybe) \<Rightarrow>
          (let tag = (if transformName t \<noteq> [] then transformName t
                      else ''transform#'' @ showNat (idx + 1));
               working' = (case maybe of
                             Some m \<Rightarrow> if m \<noteq> working then m else working
                           | None \<Rightarrow> working)
           in runTransforms ts (idx + 1) h' working' (applied @ [tag])))"

text \<open>
  The two nested loops over \<open>inputs\<close> and \<open>extensions\<close>. \<open>collected\<close> is the address of
  the object \<open>{ ...(working.types ?? {}) }\<close>; \<open>appliedNames\<close> is the set
  \<open>appliedExtensions\<close> in insertion order.
\<close>

record Collecting =
  collected :: addr
  appliedNames :: "string list"
  changed :: bool

definition cellAt :: "heap \<Rightarrow> addr \<Rightarrow> cell option" where
  "cellAt h a = (if a < length h then Some (h ! a) else None)"

fun cellEntries :: "cell option \<Rightarrow> (string \<times> val) list" where
  "cellEntries (Some (Obj kvs)) = kvs"
| "cellEntries (Some (Arr vs)) = indexed vs"
| "cellEntries None = []"

definition spreadVal :: "heap \<Rightarrow> val option \<Rightarrow> (string \<times> val) list" where
  "spreadVal h v =
     (case v of
        Some (VRef a) \<Rightarrow> assignAll [] (cellEntries (cellAt h a))
      | Some (VStr s) \<Rightarrow> indexed (map (\<lambda>c. VStr [c]) s)
      | _ \<Rightarrow> [])"

definition readProp :: "heap \<Rightarrow> addr \<Rightarrow> string \<Rightarrow> val option" where
  "readProp h a k = (case cellAt h a of Some (Obj kvs) \<Rightarrow> map_of kvs k | _ \<Rightarrow> None)"

definition writeProp :: "heap \<Rightarrow> addr \<Rightarrow> string \<Rightarrow> val \<Rightarrow> heap" where
  "writeProp h a k v =
     (case cellAt h a of Some (Obj kvs) \<Rightarrow> h[a := Obj (objSet k v kvs)] | _ \<Rightarrow> h)"

definition addOnce :: "string \<Rightarrow> string list \<Rightarrow> string list" where
  "addOnce x xs = (if x \<in> set xs then xs else xs @ [x])"

fun runExtensions ::
  "NormalizerInput \<Rightarrow> nat \<Rightarrow> NormalizerExtension list \<Rightarrow> nat \<Rightarrow> heap \<Rightarrow> Collecting \<Rightarrow>
   heap \<times> (error + Collecting)" where
  "runExtensions input inputIndex [] extIndex h st = (h, Inr st)"
| "runExtensions input inputIndex (extension # rest) extIndex h st =
     (case extensionNormalize extension h (inputPayload input) of
        (h', Inl e) \<Rightarrow> (h', Inl e)
      | (h', Inr None) \<Rightarrow> runExtensions input inputIndex rest (extIndex + 1) h' st
      | (h', Inr (Some schema)) \<Rightarrow>
          (let key = (case inputKey input of
                        Some k \<Rightarrow> k
                      | None \<Rightarrow> extensionName extension @ ''-'' @ showNat inputIndex
                                  @ ''-'' @ showNat extIndex)
           in runExtensions input inputIndex rest (extIndex + 1)
                (writeProp h' (collected st) key (VRef schema))
                (st \<lparr> appliedNames := addOnce (extensionName extension) (appliedNames st),
                      changed := True \<rparr>)))"

fun runInputs ::
  "NormalizerInput list \<Rightarrow> nat \<Rightarrow> NormalizerExtension list \<Rightarrow> heap \<Rightarrow> Collecting \<Rightarrow>
   heap \<times> (error + Collecting)" where
  "runInputs [] inputIndex extensions h st = (h, Inr st)"
| "runInputs (input # rest) inputIndex extensions h st =
     (case runExtensions input inputIndex extensions 0 h st of
        (h', Inl e) \<Rightarrow> (h', Inl e)
      | (h', Inr st') \<Rightarrow> runInputs rest (inputIndex + 1) extensions h' st')"

text \<open>
  \<open>execute\<close>. The block guarded by \<open>extensions.length && inputs.length\<close> is
  \<open>collectTypes\<close>: it returns the working object, \<open>normalizedTypes\<close> and the names of the
  extensions applied. \<open>{ ...working, types: collected }\<close> is a new cell.
\<close>

definition nonEmpty :: "'a list \<Rightarrow> 'a list option" where
  "nonEmpty xs = (if xs = [] then None else Some xs)"

definition collectTypes ::
  "heap \<Rightarrow> addr \<Rightarrow> NormalizerExtension list \<Rightarrow> NormalizerInput list \<Rightarrow>
   heap \<times> (error + addr \<times> addr option \<times> string list)" where
  "collectTypes h working extensions inputs =
     (if extensions \<noteq> [] \<and> inputs \<noteq> [] then
        (let types = (case readProp h working ''types'' of
                        None \<Rightarrow> None
                      | Some VNull \<Rightarrow> None
                      | Some VUndefined \<Rightarrow> None
                      | Some v \<Rightarrow> Some v);
             h1 = h @ [Obj (spreadVal h types)];
             st0 = \<lparr> collected = length h, appliedNames = [], changed = False \<rparr>
         in case runInputs inputs 0 extensions h1 st0 of
              (h2, Inl e) \<Rightarrow> (h2, Inl e)
            | (h2, Inr st) \<Rightarrow>
                if changed st then
                  (h2 @ [Obj (objSet ''types'' (VRef (collected st))
                                (assignAll [] (cellEntries (cellAt h2 working))))],
                   Inr (length h2, Some (collected st), appliedNames st))
                else (h2, Inr (working, None, appliedNames st)))
      else (h, Inr (working, None, [])))"

definition baseServiceOf :: "NormalizerContext \<Rightarrow> NormalizerStageConfig option \<Rightarrow> addr option" where
  "baseServiceOf context config =
     (case (case config of Some cfg \<Rightarrow> nService cfg | None \<Rightarrow> None) of
        Some s \<Rightarrow> Some s
      | None \<Rightarrow> (case normalizedService context of
                    Some s \<Rightarrow> Some s
                  | None \<Rightarrow> contextService context))"

definition normalizerExecute ::
  "Platform \<Rightarrow> heap \<Rightarrow> NormalizerContext \<Rightarrow> NormalizerStageConfig option \<Rightarrow>
   heap \<times> (error + NormalizerContext \<times> NormalizerStageResult option)" where
  "normalizerExecute env h context config =
     (if (case config of Some cfg \<Rightarrow> nSkip cfg | None \<Rightarrow> False) then (h, Inr (context, None))
      else
        case baseServiceOf context config of
          None \<Rightarrow> (h, Inr (context, None))
        | Some baseService \<Rightarrow>
            (case cloneService env h baseService of
               Inl e \<Rightarrow> (h, Inl e)
             | Inr (h1, working0) \<Rightarrow>
                 (let transforms = (case config of Some cfg \<Rightarrow> orElse (nTransforms cfg) [] | None \<Rightarrow> []);
                      extensions = (case config of Some cfg \<Rightarrow> orElse (nExtensions cfg) [] | None \<Rightarrow> []);
                      inputs = (case config of Some cfg \<Rightarrow> orElse (nInputs cfg) [] | None \<Rightarrow> [])
                  in case runTransforms transforms 0 h1 working0 [] of
                       (h2, Inl e) \<Rightarrow> (h2, Inl e)
                     | (h2, Inr (working1, applied)) \<Rightarrow>
                         (case collectTypes h2 working1 extensions inputs of
                            (h3, Inl e) \<Rightarrow> (h3, Inl e)
                          | (h3, Inr (working2, types, names)) \<Rightarrow>
                              (h3, Inr (context \<lparr> normalizedService := Some working2,
                                                  contextService := Some working2 \<rparr>,
                                        Some \<lparr> resultService = working2,
                                               normalizedTypes = types,
                                               appliedTransforms = nonEmpty applied,
                                               appliedExtensions = nonEmpty names \<rparr>))))))"

text \<open>
  What is assumed of a configured transform: run on a working object, it only allocates
  and changes cells reachable from that object, and what it returns, and what the working
  object then refers to, is made of such cells and of new ones. Of an extension: it only
  allocates.
\<close>

definition transformOk :: "Transform \<Rightarrow> bool" where
  "transformOk t =
     (\<forall>h working. working < length h \<longrightarrow>
        (case transformRun t h working of
           (h', r) \<Rightarrow>
             length h \<le> length h'
             \<and> (\<forall>a < length h. a \<notin> reach h {working} \<longrightarrow> h' ! a = h ! a)
             \<and> (case r of Inr (Some m) \<Rightarrow> m < length h' | _ \<Rightarrow> True)
             \<and> reach h' (insert working (case r of Inr (Some m) \<Rightarrow> {m} | _ \<Rightarrow> {}))
                 \<subseteq> reach h {working} \<union> {length h ..< length h'}))"

definition extensionOk :: "NormalizerExtension \<Rightarrow> bool" where
  "extensionOk e =
     (\<forall>h payload.
        (case extensionNormalize e h payload of
           (h', r) \<Rightarrow> length h \<le> length h' \<and> (\<forall>a < length h. h' ! a = h ! a)))"

text \<open>
  The invariants of the proofs. \<open>L\<close> is the size of the store when the stage starts: the
  cells below \<open>L\<close> are the ones that existed before. \<open>closedFrom L h\<close>: no cell from \<open>L\<close> on
  refers to a cell below \<open>L\<close>. \<open>unchangedBelow L h h'\<close>: the cells below \<open>L\<close> are the same
  in \<open>h'\<close> as in \<open>h\<close>. \<open>isolated L h0 h w\<close>: moreover nothing below \<open>L\<close> can be reached
  from \<open>w\<close>.
\<close>

definition closedFrom :: "nat \<Rightarrow> heap \<Rightarrow> bool" where
  "closedFrom L h = (\<forall>a. L \<le> a \<and> a < length h \<longrightarrow> cellRefs (h ! a) \<subseteq> {L ..< length h})"

definition unchangedBelow :: "nat \<Rightarrow> heap \<Rightarrow> heap \<Rightarrow> bool" where
  "unchangedBelow L h h' = (L \<le> length h' \<and> (\<forall>a < L. h' ! a = h ! a))"

definition copyPre :: "nat \<Rightarrow> (addr \<times> addr) list \<Rightarrow> heap \<Rightarrow> bool" where
  "copyPre L memo h = (L \<le> length h \<and> snd ` set memo \<subseteq> {L ..< length h} \<and> closedFrom L h)"

definition copyPost :: "nat \<Rightarrow> heap \<Rightarrow> (addr \<times> addr) list \<Rightarrow> heap \<Rightarrow> bool" where
  "copyPost L h memo' h' =
     (length h \<le> length h' \<and> (\<forall>a < L. h' ! a = h ! a) \<and> copyPre L memo' h')"

definition isolated :: "nat \<Rightarrow> heap \<Rightarrow> heap \<Rightarrow> addr \<Rightarrow> bool" where
  "isolated L h0 h w = (unchangedBelow L h0 h \<and> w < length h \<and> reach h {w} \<subseteq> {L ..})"

section \<open>Example inputs\<close>

text \<open>Concrete adapters, sources and documents on which the theorems below are run.\<close>

definition exStrict :: "nat InvokeSourceAdapter" where
  "exStrict = \<lparr> adapterType = ''swagger'',
                canHandle = (\<lambda>source. srcType source = ''swagger''),
                adapterFetch = (\<lambda>source. case srcDocument source of
                                  Some d \<Rightarrow> Inr d | None \<Rightarrow> Inl (Error ''Missing request'')),
                adapterParse = (\<lambda>payload source. Inl (Error ''not a Swagger document'')) \<rparr>"

definition exLenient :: "nat InvokeSourceAdapter" where
  "exLenient = \<lparr> adapterType = ''openapi'',
                 canHandle = (\<lambda>source. True),
                 adapterFetch = (\<lambda>source. case srcDocument source of
                                   Some d \<Rightarrow> Inr d | None \<Rightarrow> Inl (Error ''Missing request'')),
                 adapterParse = (\<lambda>payload source. Inr 7) \<rparr>"

definition exSource :: InvokeSourceConfig where
  "exSource = \<lparr> srcType = ''swagger'', srcName = None, srcRequest = None,
                srcDocument = Some (JObj []), srcOptions = None, srcMetadata = None \<rparr>"

definition exConfig :: "nat InvokeStageConfig" where
  "exConfig = \<lparr> cfgSources = [exSource], cfgAdapters = None, cfgContinueOnError = None,
                cfgSkip = False \<rparr>"

definition exFailure :: InvokeSourceError where
  "exFailure = \<lparr> errType = ''swagger'', errName = None, errMessage = ''not a Swagger document'',
                 errCause = Some (Error ''not a Swagger document'') \<rparr>"

definition exPostmanDoc :: "nat UnifiedInvokeDocument" where
  "exPostmanDoc = \<lparr> docType = ''postman'', docName = Some ''collection'', rawDocument = JNull,
                    serviceDefinition = 1, docMetadata = None, docAdapter = ''postman'' \<rparr>"

definition exSwaggerDoc :: "nat UnifiedInvokeDocument" where
  "exSwaggerDoc = \<lparr> docType = ''swagger'', docName = Some ''main'', rawDocument = JNull,
                    serviceDefinition = 2, docMetadata = Some [(''primary'', JBool True)],
                    docAdapter = ''swagger'' \<rparr>"

definition exSourceOf :: "string \<Rightarrow> InvokeSourceConfig" where
  "exSourceOf ty = \<lparr> srcType = ty, srcName = None, srcRequest = None, srcDocument = None,
                     srcOptions = None, srcMetadata = None \<rparr>"

definition exConfigOf :: "string list \<Rightarrow> nat InvokeStageConfig" where
  "exConfigOf tys = \<lparr> cfgSources = map exSourceOf tys, cfgAdapters = None,
                      cfgContinueOnError = None, cfgSkip = False \<rparr>"

definition exResult :: "nat UnifiedInvokeDocument list \<Rightarrow> nat InvokeStageResult" where
  "exResult docs = \<lparr> resDocuments = docs, resErrors = None \<rparr>"

definition exTemplates :: Templates where
  "exTemplates =
     \<lparr> transportSource = ''export class BaseFetchClient {}'',
       schemaToTs = (\<lambda>schema level. ''unknown''),
       renderRequestType = (\<lambda>className endpoint. (''export interface '' @ className @ ''Request {}'', False)),
       renderResponseType = (\<lambda>className endpoint. (''export type '' @ className @ ''Response = void;'', None)),
       renderExecutorInterface = (\<lambda>className hasRequiredFields. ''export type '' @ className @ ''Executor = never;''),
       renderClientClass = (\<lambda>className endpoint hasRequiredFields responseContentType.
                              ''export class '' @ className @ '' {}'') \<rparr>"

definition exEndpoint :: "string \<Rightarrow> HttpMethod \<Rightarrow> string \<Rightarrow> EndpointDefinition" where
  "exEndpoint ident m p =
     \<lparr> epId = ident, epName = None, epDescription = None, epPath = p, epMethod = m,
       epTags = None, epParameters = None, epBody = None, epResponses = None \<rparr>"

definition exService :: "(string \<times> Schema) list option \<Rightarrow> EndpointDefinition list \<Rightarrow> ServiceDefinition" where
  "exService tys eps =
     \<lparr> svcTitle = None, svcVersion = None, svcDescription = None, svcServers = None,
       svcTypes = tys, svcEndpoints = eps, svcSource = None \<rparr>"

definition exStringSchema :: Schema where
  "exStringSchema = PrimitiveSchema ''string'' None
                      \<lparr> nullable = False, description = None, title = None, example = None \<rparr>"

definition exPetService :: ServiceDefinition where
  "exPetService = exService (Some [(''pet'', exStringSchema)]) [exEndpoint ''listPets'' GET ''/pets'']"

definition exUserListService :: ServiceDefinition where
  "exUserListService =
     exService None [exEndpoint ''listUsers'' GET ''/user-list'',
                     exEndpoint ''listUsersLegacy'' GET ''/user_list'']"

text \<open>
  A store with one service definition (cell 0, its endpoint list in cell 1), a transform
  that renames the definition it is handed in place, and an extension that returns a new
  schema for every payload. \<open>exNormalizedHeap\<close> is the store after the stage has run.
\<close>

definition exPlatform :: Platform where
  "exPlatform = \<lparr> hasStructuredClone = True, stackDepth = 8 \<rparr>"

definition exHeap :: heap where
  "exHeap = [Obj [(''title'', VStr ''Pets''), (''endpoints'', VRef 1)], Arr []]"

definition exRetitle :: Transform where
  "exRetitle = \<lparr> transformName = ''retitle'',
                  transformRun = (\<lambda>h working.
                    (writeProp h working ''title'' (VStr ''Renamed''), Inr None)) \<rparr>"

definition exPrimitives :: NormalizerExtension where
  "exPrimitives = \<lparr> extensionName = ''primitives'',
                     extensionNormalize = (\<lambda>h payload.
                       (h @ [Obj [(''kind'', VStr ''primitive'')]], Inr (Some (length h)))) \<rparr>"

definition exNormalizerConfig :: NormalizerStageConfig where
  "exNormalizerConfig =
     \<lparr> nService = None, nTransforms = Some [exRetitle], nExtensions = Some [exPrimitives],
       nInputs = Some [\<lparr> inputKey = Some ''Pet'', inputPayload = VNull \<rparr>], nSkip = False \<rparr>"

definition exNormalizerContext :: NormalizerContext where
  "exNormalizerContext = \<lparr> normalizedService = None, contextService = Some 0 \<rparr>"

definition exNormalizedHeap :: heap where
  "exNormalizedHeap =
     [Obj [(''title'', VStr ''Pets''), (''endpoints'', VRef 1)],
      Arr [],
      Obj [(''title'', VStr ''Renamed''), (''endpoints'', VRef 3)],
      Arr [],
      Obj [(''Pet'', VRef 5)],
      Obj [(''kind'', VStr ''primitive'')],
      Obj [(''title'', VStr ''Renamed''), (''endpoints'', VRef 3), (''types'', VRef 4)]]"

text \<open>
  A transform that returns the definition the run started from, whatever it is handed,
  and changes nothing; a configuration that runs it before the renaming transform, and
  the store after the stage has run with that configuration.
\<close>

definition exReturnOriginal :: Transform where
  "exReturnOriginal = \<lparr> transformName = ''original'',
                         transformRun = (\<lambda>h working. (h, Inr (Some 0))) \<rparr>"

definition exAliasingConfig :: NormalizerStageConfig where
  "exAliasingConfig =
     \<lparr> nService = None, nTransforms = Some [exReturnOriginal, exRetitle], nExtensions = None,
       nInputs = None, nSkip = False \<rparr>"

definition exAliasedHeap :: heap where
  "exAliasedHeap =
     [Obj [(''title'', VStr ''Renamed''), (''endpoints'', VRef 1)],
      Arr [],
      Obj [(''title'', VStr ''Pets''), (''endpoints'', VRef 3)],
      Arr []]"

section \<open>Theorems\<close>

subsection \<open>Merging\<close>

lemma filter_isSwaggerLike_short:
  "\<exists>d \<in> set documents. \<not> isSwaggerLike d \<Longrightarrow>
   length (filter isSwaggerLike documents) \<noteq> length documents"
  by (metis filter_id_conv length_filter_less nat_neq_iff filter_True)

text \<open>
  C7. Merging the one-element list \<open>[doc]\<close> under the strategy \<open>auto\<close> returns
  \<open>doc\<close> itself: whatever the document is, the strategy is detected as \<open>first\<close>.
\<close>

theorem merge_single_auto_identity:
  "mergeDocuments [doc] (Some Auto) = Inr doc"
  by (simp add: mergeDocuments_def detectMergeStrategy_def)

text \<open>
  C8. \<open>mergeDocuments\<close> throws on the empty list, whatever the strategy; it throws
  when \<open>swagger\<close> or \<open>openapi\<close> is requested and some document has no \<open>paths\<close>
  field; and on a non-empty list the strategies \<open>first\<close>, \<open>json-array\<close> and
  \<open>auto\<close> (also an omitted strategy) return a payload.
\<close>

theorem merge_fail_fast:
  "mergeDocuments [] strategy = Inl (Error ''No documents fetched to merge.'')
   \<and> ((s = Swagger \<or> s = OpenApi) \<longrightarrow> documents \<noteq> [] \<longrightarrow>
        (\<exists>d \<in> set documents. \<not> isSwaggerLike d) \<longrightarrow>
        mergeDocuments documents (Some s) = Inl notAllSwagger)
   \<and> ((t = Some First \<or> t = Some JsonArray \<or> t = Some Auto \<or> t = None) \<longrightarrow>
        documents \<noteq> [] \<longrightarrow> (\<exists>payload. mergeDocuments documents t = Inr payload))"
proof (intro conjI impI)
  show "mergeDocuments [] strategy = Inl (Error ''No documents fetched to merge.'')"
    by (simp add: mergeDocuments_def)
next
  assume s: "s = Swagger \<or> s = OpenApi" and ne: "documents \<noteq> []"
    and bad: "\<exists>d \<in> set documents. \<not> isSwaggerLike d"
  from bad have "length (filter isSwaggerLike documents) \<noteq> length documents"
    by (rule filter_isSwaggerLike_short)
  with s ne show "mergeDocuments documents (Some s) = Inl notAllSwagger"
    by (auto simp: mergeDocuments_def)
next
  assume t: "t = Some First \<or> t = Some JsonArray \<or> t = Some Auto \<or> t = None"
    and ne: "documents \<noteq> []"
  have all: "list_all isSwaggerLike documents \<Longrightarrow>
             length (filter isSwaggerLike documents) = length documents"
    by (simp add: list_all_iff)
  from t ne all show "\<exists>payload. mergeDocuments documents t = Inr payload"
    by (auto simp: mergeDocuments_def detectMergeStrategy_def Let_def)
qed

theorem merge_fail_fast_witness:
  "mergeDocuments [] (Some First) = Inl (Error ''No documents fetched to merge.'')
   \<and> mergeDocuments [JObj [(''paths'', JObj [])], JNum 1] (Some Swagger) = Inl notAllSwagger
   \<and> (\<exists>payload. mergeDocuments [JObj [(''paths'', JObj [])], JObj [(''paths'', JNull)]] (Some Auto)
         = Inr payload)"
  using merge_fail_fast [of "Some First" Swagger "[JObj [(''paths'', JObj [])], JNum 1]" None]
    merge_fail_fast [of None First "[JObj [(''paths'', JObj [])], JObj [(''paths'', JNull)]]" "Some Auto"]
  by simp

subsection \<open>Fetching\<close>

text \<open>
  C9. For a discovery source whose discovery request succeeds, an error thrown by
  \<open>resolveRequests\<close> is the error \<open>fetchApiDocumentation\<close> fails with: no document,
  empty or default, is returned.
\<close>

theorem discovery_resolver_error_surfaces:
  assumes "fetchSingleDocument w discovery = Inr entry"
    and "resolveRequests entry = Inl e"
  shows "fetchApiDocumentation w (Discovery discovery resolveRequests mergeStrategy) = Inl e"
  using assms by simp

theorem discovery_resolver_error_surfaces_witness:
  "fetchApiDocumentation
     \<lparr> fetchHttp = (\<lambda>r. Inr (JObj [(''services'', JArr [JStr ''a'', JStr ''b''])])),
       parseJsonFile = (\<lambda>p. Inl (Error ''no such file'')),
       fileURLToPath = (\<lambda>u. Inr u) \<rparr>
     (Discovery (SourceString ''https://registry.example/services'')
        (\<lambda>payload. Inl (Error ''resolver failed'')) None)
   = Inl (Error ''resolver failed'')"
  using discovery_resolver_error_surfaces
    [of "\<lparr> fetchHttp = (\<lambda>r. Inr (JObj [(''services'', JArr [JStr ''a'', JStr ''b''])])),
          parseJsonFile = (\<lambda>p. Inl (Error ''no such file'')),
          fileURLToPath = (\<lambda>u. Inr u) \<rparr>"
        "SourceString ''https://registry.example/services''"
        "JObj [(''services'', JArr [JStr ''a'', JStr ''b''])]"
        "\<lambda>payload. Inl (Error ''resolver failed'')" "Error ''resolver failed''" None]
  by (simp add: isHttpUrl_def startsWith_def)

subsection \<open>The invoke stage\<close>

lemmas ex_defs = exStrict_def exLenient_def exSource_def exConfig_def exFailure_def

lemma find_append_first:
  "\<forall>b \<in> set pre. \<not> P b \<Longrightarrow> P a \<Longrightarrow> find P (pre @ a # post) = Some a"
  by (induction pre) auto

lemma invokeLoop_continue:
  "invokeLoop ads True srcs docs errs =
   Inr (docs @ [d. Inr d \<leftarrow> map (invokeSource ads) srcs],
        errs @ [fst f. Inl f \<leftarrow> map (invokeSource ads) srcs])"
proof (induction srcs arbitrary: docs errs)
  case Nil
  then show ?case by simp
next
  case (Cons s srcs)
  show ?case
  proof (cases "invokeSource ads s")
    case (Inl f)
    then show ?thesis using Cons.IH by (cases f) simp
  next
    case (Inr d)
    then show ?thesis using Cons.IH by simp
  qed
qed

lemma invokeLoop_stop:
  "\<forall>x \<in> set ok. \<exists>d. invokeSource ads x = Inr d \<Longrightarrow> invokeSource ads s = Inl (err, thrown) \<Longrightarrow>
   invokeLoop ads False (ok @ s # rest) docs errs = Inl thrown"
  by (induction ok arbitrary: docs errs) auto

text \<open>
  C1, as the code has it. For every source the adapter is the first of the resolved
  adapters whose \<open>canHandle\<close> accepts the source, whatever the adapters after it are;
  \<open>parse\<close> plays no part in the choice. When that adapter's \<open>fetch\<close> or \<open>parse\<close>
  throws, the source's outcome is the error record of that failure and no other adapter
  is tried. With \<open>continueOnError\<close> (the default) \<open>execute\<close> returns the documents and
  the error records of all sources in source order; without it, \<open>execute\<close> throws at
  the first source that fails.
\<close>

theorem invoke_selects_by_canHandle_only:
  fixes cfg :: "'svc InvokeStageConfig"
  assumes ads: "ads = resolveAdapters defaultAdapters (cfgAdapters cfg)"
    and outcomes: "outcomes = map (invokeSource ads) (cfgSources cfg)"
  shows "((\<forall>b \<in> set pre. \<not> canHandle b source) \<and> canHandle a source \<longrightarrow>
            invokeSource (pre @ a # post) source = invokeSource [a] source
            \<and> (adapterFetch a source = Inl e
                 \<or> (adapterFetch a source = Inr raw \<and> adapterParse a raw source = Inl e)
               \<longrightarrow> invokeSource (pre @ a # post) source =
                     Inl (\<lparr> errType = srcType source, errName = srcName source,
                            errMessage = messageOf e, errCause = Some e \<rparr>,
                          wrapError (adapterType a) (messageOf e))))
       \<and> (\<not> cfgSkip cfg \<and> cfgSources cfg \<noteq> [] \<and> cfgContinueOnError cfg \<noteq> Some False \<longrightarrow>
            execute defaultAdapters (Some cfg) =
              Inr (Some \<lparr> resDocuments = [d. Inr d \<leftarrow> outcomes],
                          resErrors = (if [f. Inl f \<leftarrow> outcomes] = [] then None
                                       else Some [fst f. Inl f \<leftarrow> outcomes]) \<rparr>))
       \<and> (\<not> cfgSkip cfg \<and> cfgContinueOnError cfg = Some False \<and> cfgSources cfg = ok @ s # rest \<and>
            (\<forall>x \<in> set ok. \<exists>d. invokeSource ads x = Inr d) \<and> invokeSource ads s = Inl (err, thrown) \<longrightarrow>
            execute defaultAdapters (Some cfg) = Inl thrown)"
proof (intro conjI impI)
  assume h: "(\<forall>b \<in> set pre. \<not> canHandle b source) \<and> canHandle a source"
  then have sel: "findAdapter (pre @ a # post) source = Some a"
    unfolding findAdapter_def by (intro find_append_first) auto
  from h have one: "findAdapter [a] source = Some a"
    by (simp add: findAdapter_def)
  show "invokeSource (pre @ a # post) source = invokeSource [a] source"
    by (simp add: invokeSource_def sel one)
  assume "adapterFetch a source = Inl e
            \<or> (adapterFetch a source = Inr raw \<and> adapterParse a raw source = Inl e)"
  then show "invokeSource (pre @ a # post) source =
               Inl (\<lparr> errType = srcType source, errName = srcName source,
                      errMessage = messageOf e, errCause = Some e \<rparr>,
                    wrapError (adapterType a) (messageOf e))"
    by (auto simp: invokeSource_def sel)
next
  assume c: "\<not> cfgSkip cfg \<and> cfgSources cfg \<noteq> [] \<and> cfgContinueOnError cfg \<noteq> Some False"
  then have coe: "orElse (cfgContinueOnError cfg) True = True"
    by (cases "cfgContinueOnError cfg") (auto simp: orElse_def)
  have nil: "([f. Inl f \<leftarrow> outcomes] = []) = ([fst f. Inl f \<leftarrow> outcomes] = [])"
    by (induction outcomes) (auto split: sum.splits)
  show "execute defaultAdapters (Some cfg) =
          Inr (Some \<lparr> resDocuments = [d. Inr d \<leftarrow> outcomes],
                      resErrors = (if [f. Inl f \<leftarrow> outcomes] = [] then None
                                   else Some [fst f. Inl f \<leftarrow> outcomes]) \<rparr>)"
    unfolding nil using c
    by (simp add: execute_def coe invokeLoop_continue ads[symmetric] outcomes[symmetric])
next
  assume d: "\<not> cfgSkip cfg \<and> cfgContinueOnError cfg = Some False \<and> cfgSources cfg = ok @ s # rest \<and>
            (\<forall>x \<in> set ok. \<exists>d. invokeSource ads x = Inr d) \<and> invokeSource ads s = Inl (err, thrown)"
  then have "invokeLoop ads False (ok @ s # rest) [] [] = Inl thrown"
    by (intro invokeLoop_stop) auto
  with d show "execute defaultAdapters (Some cfg) = Inl thrown"
    by (simp add: execute_def orElse_def ads[symmetric])
qed

theorem invoke_selects_by_canHandle_only_witness:
  "invokeSource [exStrict, exLenient] exSource = invokeSource [exStrict] exSource
   \<and> invokeSource [exStrict, exLenient] exSource
       = Inl (exFailure, wrapError ''swagger'' ''not a Swagger document'')
   \<and> execute [exStrict, exLenient] (Some exConfig)
       = Inr (Some \<lparr> resDocuments = [], resErrors = Some [exFailure] \<rparr>)
   \<and> execute [exStrict, exLenient] (Some (exConfig \<lparr> cfgContinueOnError := Some False \<rparr>))
       = Inl (wrapError ''swagger'' ''not a Swagger document'')"
proof -
  note t1 = invoke_selects_by_canHandle_only
    [OF refl refl, where defaultAdapters = "[exStrict, exLenient]" and cfg = exConfig
       and pre = "[]" and a = exStrict and post = "[exLenient]" and source = exSource
       and e = "Error ''not a Swagger document''" and raw = "JObj []"
       and ok = "[]" and s = exSource and rest = "[]"
       and err = exFailure and thrown = "wrapError ''swagger'' ''not a Swagger document''"]
  note t2 = invoke_selects_by_canHandle_only
    [OF refl refl, where defaultAdapters = "[exStrict, exLenient]"
       and cfg = "exConfig \<lparr> cfgContinueOnError := Some False \<rparr>"
       and pre = "[]" and a = exStrict and post = "[exLenient]" and source = exSource
       and e = "Error ''not a Swagger document''" and raw = "JObj []"
       and ok = "[]" and s = exSource and rest = "[]"
       and err = exFailure and thrown = "wrapError ''swagger'' ''not a Swagger document''"]
  have a: "canHandle exStrict exSource" by (simp add: ex_defs)
  have f: "adapterFetch exStrict exSource = Inr (JObj [])" by (simp add: ex_defs)
  have p: "adapterParse exStrict (JObj []) exSource = Inl (Error ''not a Swagger document'')"
    by (simp add: ex_defs)
  have c: "\<not> cfgSkip exConfig" "cfgSources exConfig = [exSource]" "cfgAdapters exConfig = None"
    "cfgContinueOnError exConfig = None"
    by (simp_all add: exConfig_def)
  have r: "resolveAdapters [exStrict, exLenient] None = [exStrict, exLenient]"
    by (simp add: resolveAdapters_def)
  have rec: "\<lparr> errType = srcType exSource, errName = srcName exSource,
               errMessage = ''not a Swagger document'',
               errCause = Some (Error ''not a Swagger document'') \<rparr> = exFailure"
    and ty: "adapterType exStrict = ''swagger''"
    by (simp_all add: exFailure_def exSource_def exStrict_def)
  have h: "(\<forall>b \<in> set []. \<not> canHandle b exSource) \<and> canHandle exStrict exSource"
    using a by simp
  note t1a = t1 [THEN conjunct1, THEN mp, OF h]
  from t1a have 1: "invokeSource [exStrict, exLenient] exSource = invokeSource [exStrict] exSource"
    by simp
  from f p have "adapterFetch exStrict exSource = Inl (Error ''not a Swagger document'')
      \<or> (adapterFetch exStrict exSource = Inr (JObj [])
         \<and> adapterParse exStrict (JObj []) exSource = Inl (Error ''not a Swagger document''))"
    by simp
  from t1a [THEN conjunct2, THEN mp, OF this]
  have sel: "invokeSource [exStrict, exLenient] exSource
               = Inl (exFailure, wrapError ''swagger'' ''not a Swagger document'')"
    by (simp add: rec ty)
  from t1 c r sel have 3: "execute [exStrict, exLenient] (Some exConfig)
       = Inr (Some \<lparr> resDocuments = [], resErrors = Some [exFailure] \<rparr>)"
    by simp
  from t2 c r sel have 4: "execute [exStrict, exLenient] (Some (exConfig \<lparr> cfgContinueOnError := Some False \<rparr>))
       = Inl (wrapError ''swagger'' ''not a Swagger document'')"
    by simp
  from 1 sel 3 4 show ?thesis by simp
qed

text \<open>
  C1 as stated fails: a second adapter accepts the source and would parse it, the
  first one's \<open>parse\<close> throws, and the source ends as an error with no document.
\<close>

theorem invoke_no_fall_through_counterexample:
  "canHandle exLenient exSource
   \<and> adapterParse exLenient (JObj []) exSource = Inr 7
   \<and> execute [exStrict, exLenient] (Some exConfig)
       = Inr (Some \<lparr> resDocuments = [], resErrors = Some [exFailure] \<rparr>)"
  by (simp add: ex_defs execute_def resolveAdapters_def orElse_def invokeSource_def findAdapter_def)

subsection \<open>The primary document\<close>

lemmas ex_doc_defs = exPostmanDoc_def exSwaggerDoc_def exSourceOf_def exConfigOf_def exResult_def

lemma firstSourceMatch_found:
  "i < length srcs \<Longrightarrow> (\<forall>j<i. find (matchesSource (srcs ! j)) docs = None) \<Longrightarrow>
   find (matchesSource (srcs ! i)) docs = Some d \<Longrightarrow> firstSourceMatch srcs docs = Some d"
proof (induction srcs arbitrary: i)
  case Nil
  then show ?case by simp
next
  case (Cons s srcs)
  show ?case
  proof (cases i)
    case 0
    with Cons.prems show ?thesis by simp
  next
    case (Suc i')
    from Cons.prems Suc have none0: "find (matchesSource s) docs = None"
      by (metis nth_Cons_0 zero_less_Suc)
    have a: "\<forall>j<i'. find (matchesSource (srcs ! j)) docs = None"
      using Cons.prems(2) Suc by (metis Suc_less_eq nth_Cons_Suc)
    have b: "find (matchesSource (srcs ! i')) docs = Some d"
      using Cons.prems(3) Suc by simp
    have c: "i' < length srcs" using Cons.prems(1) Suc by simp
    have "firstSourceMatch srcs docs = Some d" by (rule Cons.IH[OF c a b])
    with none0 show ?thesis by simp
  qed
qed

lemma firstSourceMatch_none:
  "(\<forall>s \<in> set srcs. find (matchesSource s) docs = None) \<Longrightarrow> firstSourceMatch srcs docs = None"
  by (induction srcs) auto

lemma find_first_index:
  "k < length xs \<Longrightarrow> P (xs ! k) \<Longrightarrow> (\<forall>m<k. \<not> P (xs ! m)) \<Longrightarrow> find P xs = Some (xs ! k)"
  by (auto simp: find_Some_iff)

lemma find_none_all: "(\<forall>x \<in> set xs. \<not> P x) \<Longrightarrow> find P xs = None"
  by (simp add: find_None_iff)

text \<open>
  C6. With at least one parsed document, \<open>selectPrimaryDocument\<close> returns: for the
  first configured source (in declaration order) that some document matches by name or
  type, the first document matching it; if no source matches any document, the first
  document whose metadata has \<open>primary: true\<close>; if there is none either, the first
  document. A run context without a service definition takes the selected document's.
\<close>

theorem primary_document_preference:
  fixes r :: "'svc InvokeStageResult" and cfg :: "'svc InvokeStageConfig"
  assumes docs: "docs = resDocuments r" and srcs: "srcs = cfgSources cfg" and ne: "docs \<noteq> []"
  shows "(i < length srcs \<and> (\<forall>j<i. \<forall>d \<in> set docs. \<not> matchesSource (srcs ! j) d) \<and>
          k < length docs \<and> matchesSource (srcs ! i) (docs ! k) \<and>
          (\<forall>m<k. \<not> matchesSource (srcs ! i) (docs ! m))
          \<longrightarrow> selectPrimaryDocument (Some r) (Some cfg) = Some (docs ! k))
       \<and> ((\<forall>s \<in> set srcs. \<forall>d \<in> set docs. \<not> matchesSource s d) \<and>
          k < length docs \<and> marksPrimary (docs ! k) \<and> (\<forall>m<k. \<not> marksPrimary (docs ! m))
          \<longrightarrow> selectPrimaryDocument (Some r) (Some cfg) = Some (docs ! k))
       \<and> ((\<forall>s \<in> set srcs. \<forall>d \<in> set docs. \<not> matchesSource s d) \<and>
          (\<forall>d \<in> set docs. \<not> marksPrimary d)
          \<longrightarrow> selectPrimaryDocument (Some r) (Some cfg) = Some (hd docs))
       \<and> (ctxServiceDefinition ctx = None \<and> ctxInvokeResults ctx = Some r
          \<longrightarrow> ctxServiceDefinition (adoptPrimary ctx stageResult (Some cfg))
              = map_option serviceDefinition (selectPrimaryDocument (Some r) (Some cfg)))"
proof (intro conjI impI)
  assume a: "i < length srcs \<and> (\<forall>j<i. \<forall>d \<in> set docs. \<not> matchesSource (srcs ! j) d) \<and>
          k < length docs \<and> matchesSource (srcs ! i) (docs ! k) \<and>
          (\<forall>m<k. \<not> matchesSource (srcs ! i) (docs ! m))"
  then have "find (matchesSource (srcs ! i)) docs = Some (docs ! k)"
    by (intro find_first_index) auto
  moreover from a have "\<forall>j<i. find (matchesSource (srcs ! j)) docs = None"
    by (auto intro: find_none_all)
  ultimately have "firstSourceMatch srcs docs = Some (docs ! k)"
    using a by (intro firstSourceMatch_found[of i]) auto
  with docs srcs ne show "selectPrimaryDocument (Some r) (Some cfg) = Some (docs ! k)"
    by (simp add: selectPrimaryDocument_def)
next
  assume b: "(\<forall>s \<in> set srcs. \<forall>d \<in> set docs. \<not> matchesSource s d) \<and>
          k < length docs \<and> marksPrimary (docs ! k) \<and> (\<forall>m<k. \<not> marksPrimary (docs ! m))"
  then have "firstSourceMatch srcs docs = None"
    by (intro firstSourceMatch_none) (auto intro: find_none_all)
  moreover from b have "find marksPrimary docs = Some (docs ! k)"
    by (intro find_first_index) auto
  ultimately show "selectPrimaryDocument (Some r) (Some cfg) = Some (docs ! k)"
    using docs srcs ne by (simp add: selectPrimaryDocument_def)
next
  assume c: "(\<forall>s \<in> set srcs. \<forall>d \<in> set docs. \<not> matchesSource s d) \<and>
          (\<forall>d \<in> set docs. \<not> marksPrimary d)"
  then have "firstSourceMatch srcs docs = None"
    by (intro firstSourceMatch_none) (auto intro: find_none_all)
  moreover from c have "find marksPrimary docs = None"
    by (auto intro: find_none_all)
  ultimately show "selectPrimaryDocument (Some r) (Some cfg) = Some (hd docs)"
    using docs srcs ne by (simp add: selectPrimaryDocument_def)
next
  assume "ctxServiceDefinition ctx = None \<and> ctxInvokeResults ctx = Some r"
  then show "ctxServiceDefinition (adoptPrimary ctx stageResult (Some cfg))
              = map_option serviceDefinition (selectPrimaryDocument (Some r) (Some cfg))"
    by (simp add: adoptPrimary_def Let_def split: option.splits)
qed

theorem primary_document_preference_witness:
  "selectPrimaryDocument (Some (exResult [exPostmanDoc, exSwaggerDoc]))
       (Some (exConfigOf [''apifox'', ''swagger''])) = Some exSwaggerDoc
   \<and> selectPrimaryDocument (Some (exResult [exPostmanDoc, exSwaggerDoc]))
       (Some (exConfigOf [''apifox''])) = Some exSwaggerDoc
   \<and> selectPrimaryDocument (Some (exResult [exPostmanDoc]))
       (Some (exConfigOf [''apifox''])) = Some exPostmanDoc
   \<and> ctxServiceDefinition
        (adoptPrimary \<lparr> ctxServiceDefinition = None, ctxRawDocument = None, ctxParserName = None,
                        ctxInvokeResults = Some (exResult [exPostmanDoc, exSwaggerDoc]) \<rparr>
           None (Some (exConfigOf [''apifox'', ''swagger''])))
       = Some 2"
proof -
  have m: "\<not> matchesSource (exSourceOf ''apifox'') exPostmanDoc"
    "\<not> matchesSource (exSourceOf ''apifox'') exSwaggerDoc"
    "\<not> matchesSource (exSourceOf ''swagger'') exPostmanDoc"
    "matchesSource (exSourceOf ''swagger'') exSwaggerDoc"
    "\<not> marksPrimary exPostmanDoc" "marksPrimary exSwaggerDoc"
    by (simp_all add: ex_doc_defs matchesSource_def marksPrimary_def orElse_def)
  have s: "cfgSources (exConfigOf tys) = map exSourceOf tys" "resDocuments (exResult docs) = docs"
    for tys docs by (simp_all add: ex_doc_defs)
  note a = primary_document_preference
    [OF refl refl, where r = "exResult [exPostmanDoc, exSwaggerDoc]"
       and cfg = "exConfigOf [''apifox'', ''swagger'']" and i = "Suc 0" and k = "Suc 0"
       and ctx = "\<lparr> ctxServiceDefinition = None, ctxRawDocument = None, ctxParserName = None,
                        ctxInvokeResults = Some (exResult [exPostmanDoc, exSwaggerDoc]) \<rparr>"
       and stageResult = None]
  note b = primary_document_preference
    [OF refl refl, where r = "exResult [exPostmanDoc, exSwaggerDoc]"
       and cfg = "exConfigOf [''apifox'']" and k = "Suc 0"]
  note c = primary_document_preference
    [OF refl refl, where r = "exResult [exPostmanDoc]" and cfg = "exConfigOf [''apifox'']"]
  from a m have 1: "selectPrimaryDocument (Some (exResult [exPostmanDoc, exSwaggerDoc]))
       (Some (exConfigOf [''apifox'', ''swagger''])) = Some exSwaggerDoc"
    by (simp add: s)
  from a 1 have 4: "ctxServiceDefinition
        (adoptPrimary \<lparr> ctxServiceDefinition = None, ctxRawDocument = None, ctxParserName = None,
                        ctxInvokeResults = Some (exResult [exPostmanDoc, exSwaggerDoc]) \<rparr>
           None (Some (exConfigOf [''apifox'', ''swagger''])))
       = Some 2"
    by (simp add: s exSwaggerDoc_def)
  from b m have 2: "selectPrimaryDocument (Some (exResult [exPostmanDoc, exSwaggerDoc]))
       (Some (exConfigOf [''apifox''])) = Some exSwaggerDoc"
    by (simp add: s)
  from c m have 3: "selectPrimaryDocument (Some (exResult [exPostmanDoc]))
       (Some (exConfigOf [''apifox''])) = Some exPostmanDoc"
    by (simp add: s)
  from 1 2 3 4 show ?thesis by simp
qed

subsection \<open>The schema converter\<close>

lemma typeStrOf_null_array:
  "JStr ''null'' \<in> set ts \<Longrightarrow> find (\<lambda>t. t \<noteq> JStr ''null'') ts = Some m \<Longrightarrow> truthy m \<Longrightarrow>
   typeStrOf (Some (JArr ts)) = Some m"
  by (simp add: typeStrOf_def)

lemma getProp_Some_object: "getProp input k = Some v \<Longrightarrow> truthy input \<and> isObjectLike input"
  by (cases input) simp_all

lemma convert_object_shape:
  assumes "typeStrOf (getProp input ''type'') = Some (JStr ''object'')"
    and "truthy input" "isObjectLike input"
  shows "case jsonSchemaToSchema (Some input) of
           Inl e \<Rightarrow> True
         | Inr None \<Rightarrow> False
         | Inr (Some s) \<Rightarrow> kind s = ''object'' \<and> baseOf s = baseFields input"
  apply (subst jsonSchemaToSchema.simps(2))
  apply (simp add: assms truthyOpt_def Let_def split: sum.split option.split json.split)
  done

lemma convert_array_shape:
  assumes "typeStrOf (getProp input ''type'') = Some (JStr ''array'')"
    and "truthy input" "isObjectLike input"
  shows "case jsonSchemaToSchema (Some input) of
           Inl e \<Rightarrow> True
         | Inr None \<Rightarrow> False
         | Inr (Some s) \<Rightarrow> kind s = ''array'' \<and> baseOf s = baseFields input"
  apply (subst jsonSchemaToSchema.simps(2))
  apply (simp add: assms truthyOpt_def Let_def split: sum.split)
  done

lemma convert_primitive:
  assumes "typeStrOf (getProp input ''type'') = Some (JStr t)"
    and "t \<in> set [''string'', ''number'', ''integer'', ''boolean'']"
    and "truthy input" "isObjectLike input"
  shows "jsonSchemaToSchema (Some input)
           = Inr (Some (PrimitiveSchema t (getProp input ''format'') (baseFields input)))"
  apply (subst jsonSchemaToSchema.simps(2))
  using assms(2) apply (auto simp add: assms(1,3,4) truthyOpt_def Let_def)
  done

lemma convert_unknown:
  assumes "typeStrOf (getProp input ''type'') = Some m" and "truthy m"
    and "m \<notin> set [JStr ''object'', JStr ''array'', JStr ''string'', JStr ''number'',
                    JStr ''integer'', JStr ''boolean'', JStr ''null'']"
    and "truthy input" "isObjectLike input"
  shows "jsonSchemaToSchema (Some input) = Inr (Some (PrimitiveSchema ''unknown'' None (baseFields input)))"
  apply (subst jsonSchemaToSchema.simps(2))
  using assms(2,3) apply (simp add: assms(1,4,5) truthyOpt_def Let_def)
  done




subsection \<open>The code generator\<close>

lemma widgets_segments:
  "extractPathSegments ''/widgets/{id}'' fallbackBase fallbackIndex = [''widgets'', ''id'']"
proof -
  have raw: "filter (\<lambda>segment. segment \<noteq> []) (map trim (splitChar CHR ''/'' ''/widgets/{id}''))
               = [''widgets'', ''{id}'']"
    by code_simp
  have n0: "normalizePathSegment ''widgets'' 0 = ''widgets''" by code_simp
  have n1: "normalizePathSegment ''{id}'' (Suc 0) = ''id''" by code_simp
  have en: "enumerate0 [''widgets'', ''{id}''] = [(''widgets'', 0), (''{id}'', 1)]"
    by code_simp
  show ?thesis
    unfolding extractPathSegments_def Let_def raw en by (simp add: n0 n1)
qed

lemma endpoint_file_signature:
  "sublist (''Auto-generated for '' @ methodName (epMethod endpoint) @ '' '' @ epPath endpoint)
     (content (renderEndpointFile T endpoint config))"
proof -
  obtain rest where
    "content (renderEndpointFile T endpoint config) =
       (''/**'' @ [nl] @ '' * '')
       @ (''Auto-generated for '' @ methodName (epMethod endpoint) @ '' '' @ epPath endpoint)
       @ rest"
    by (simp add: renderEndpointFile_def Let_def)
  then show ?thesis
    unfolding sublist_def by blast
qed

lemma endpoint_file_name: "filename (renderEndpointFile T endpoint config) = cfgFilename config"
  by (simp add: renderEndpointFile_def Let_def)

lemma widgets_pair_files:
  assumes p: "epPath p = ''/widgets/{id}''" and q: "epPath q = ''/widgets/{id}''"
    and mp: "epMethod p = GET \<or> epMethod p = DELETE"
    and mq: "epMethod q = GET \<or> epMethod q = DELETE"
  shows "\<exists>pre. files (generateClientSource T (service \<lparr> svcEndpoints := [p, q] \<rparr>) options)
           = pre @ [renderEndpointFile T p
                      \<lparr> cfgFilename = ''widgets/id-'' @ toLowerCase (methodName (epMethod p)) @ ''.ts'',
                        cfgTransportImportPath = ''../transport'' \<rparr>,
                    renderEndpointFile T q
                      \<lparr> cfgFilename = ''widgets/id-'' @ toLowerCase (methodName (epMethod q)) @ ''.ts'',
                        cfgTransportImportPath = ''../transport'' \<rparr>]"
proof -
  have counts: "countKey (countKey [] ''widgets/id'') ''widgets/id'' = [(''widgets/id'', 2)]"
    by (simp add: countKey_def)
  have name: "endpointFilename [(''widgets/id'', 2)] e [''widgets'', ''id'']
                = ''widgets/id-'' @ toLowerCase (methodName (epMethod e)) @ ''.ts''" for e
    by (simp add: endpointFilename_def pathJoin_def)
  have lg: "toLowerCase ''GET'' = ''get''" by code_simp
  have ld: "toLowerCase ''DELETE'' = ''delete''" by code_simp
  have ig: "computeRelativeModulePath ''widgets/id-get.ts'' ''transport.ts'' = ''../transport''"
    by code_simp
  have idl: "computeRelativeModulePath ''widgets/id-delete.ts'' ''transport.ts'' = ''../transport''"
    by code_simp
  have infos: "map (\<lambda>(endpoint, index).
                   (endpoint,
                    extractPathSegments (epPath endpoint)
                      (truthyName (epName endpoint) (epId endpoint)) index))
                (enumerate0 [p, q])
               = [(p, [''widgets'', ''id'']), (q, [''widgets'', ''id''])]"
    by (simp add: enumerate0_def upt_rec p q widgets_segments del: upt_Suc)
  show ?thesis
    using mp mq
    by (cases "renderTypesFile T (service \<lparr> svcEndpoints := [p, q] \<rparr>)"; elim disjE)
       (simp_all add: generateClientSource_def Let_def infos counts name lg ld ig idl
          renderTransportFile_def)
qed

text \<open>
  C5. Two endpoints that share the path \<open>/widgets/{id}\<close>, one \<open>GET\<close> and one
  \<open>DELETE\<close>, in either order and whatever their other fields, the rest of the service
  and the options are: their files are the last two of the bundle, named
  \<open>widgets/id-get.ts\<close> and \<open>widgets/id-delete.ts\<close>, and each contains the text
  \<open>Auto-generated for\<close> followed by its own method and the path.
\<close>

theorem path_collision_law:
  fixes a b :: EndpointDefinition
  defines "getWidget \<equiv> a \<lparr> epPath := ''/widgets/{id}'', epMethod := GET \<rparr>"
    and "deleteWidget \<equiv> b \<lparr> epPath := ''/widgets/{id}'', epMethod := DELETE \<rparr>"
  shows "(\<exists>pre fileGet fileDelete.
           files (generateClientSource T (service \<lparr> svcEndpoints := [getWidget, deleteWidget] \<rparr>) options)
             = pre @ [fileGet, fileDelete]
         \<and> filename fileGet = ''widgets/id-get.ts''
         \<and> filename fileDelete = ''widgets/id-delete.ts''
         \<and> filename fileGet \<noteq> filename fileDelete
         \<and> sublist ''Auto-generated for GET /widgets/{id}'' (content fileGet)
         \<and> sublist ''Auto-generated for DELETE /widgets/{id}'' (content fileDelete))
       \<and> (\<exists>pre fileDelete fileGet.
           files (generateClientSource T (service \<lparr> svcEndpoints := [deleteWidget, getWidget] \<rparr>) options)
             = pre @ [fileDelete, fileGet]
         \<and> filename fileGet = ''widgets/id-get.ts''
         \<and> filename fileDelete = ''widgets/id-delete.ts''
         \<and> filename fileGet \<noteq> filename fileDelete
         \<and> sublist ''Auto-generated for GET /widgets/{id}'' (content fileGet)
         \<and> sublist ''Auto-generated for DELETE /widgets/{id}'' (content fileDelete))"
proof -
  let ?fg = "renderEndpointFile T getWidget
               \<lparr> cfgFilename = ''widgets/id-get.ts'', cfgTransportImportPath = ''../transport'' \<rparr>"
  let ?fd = "renderEndpointFile T deleteWidget
               \<lparr> cfgFilename = ''widgets/id-delete.ts'', cfgTransportImportPath = ''../transport'' \<rparr>"
  have paths: "epPath getWidget = ''/widgets/{id}''" "epPath deleteWidget = ''/widgets/{id}''"
    "epMethod getWidget = GET" "epMethod deleteWidget = DELETE"
    by (simp_all add: getWidget_def deleteWidget_def)
  have lg: "toLowerCase ''GET'' = ''get''" by code_simp
  have ld: "toLowerCase ''DELETE'' = ''delete''" by code_simp
  have sg: "sublist ''Auto-generated for GET /widgets/{id}'' (content ?fg)"
    using endpoint_file_signature[of getWidget T] by (simp add: paths)
  have sd: "sublist ''Auto-generated for DELETE /widgets/{id}'' (content ?fd)"
    using endpoint_file_signature[of deleteWidget T] by (simp add: paths)
  have ne: "filename ?fg \<noteq> filename ?fd"
    by (simp add: endpoint_file_name)
  from widgets_pair_files[of getWidget deleteWidget T service options]
  obtain pre1 where 1:
    "files (generateClientSource T (service \<lparr> svcEndpoints := [getWidget, deleteWidget] \<rparr>) options)
       = pre1 @ [?fg, ?fd]"
    by (auto simp: paths lg ld)
  from widgets_pair_files[of deleteWidget getWidget T service options]
  obtain pre2 where 2:
    "files (generateClientSource T (service \<lparr> svcEndpoints := [deleteWidget, getWidget] \<rparr>) options)
       = pre2 @ [?fd, ?fg]"
    by (auto simp: paths lg ld)
  have A: "\<exists>pre fileGet fileDelete.
           files (generateClientSource T (service \<lparr> svcEndpoints := [getWidget, deleteWidget] \<rparr>) options)
             = pre @ [fileGet, fileDelete]
         \<and> filename fileGet = ''widgets/id-get.ts''
         \<and> filename fileDelete = ''widgets/id-delete.ts''
         \<and> filename fileGet \<noteq> filename fileDelete
         \<and> sublist ''Auto-generated for GET /widgets/{id}'' (content fileGet)
         \<and> sublist ''Auto-generated for DELETE /widgets/{id}'' (content fileDelete)"
    using 1 sg sd ne by (intro exI[of _ pre1] exI[of _ ?fg] exI[of _ ?fd]) (simp add: endpoint_file_name)
  have B: "\<exists>pre fileDelete fileGet.
           files (generateClientSource T (service \<lparr> svcEndpoints := [deleteWidget, getWidget] \<rparr>) options)
             = pre @ [fileDelete, fileGet]
         \<and> filename fileGet = ''widgets/id-get.ts''
         \<and> filename fileDelete = ''widgets/id-delete.ts''
         \<and> filename fileGet \<noteq> filename fileDelete
         \<and> sublist ''Auto-generated for GET /widgets/{id}'' (content fileGet)
         \<and> sublist ''Auto-generated for DELETE /widgets/{id}'' (content fileDelete)"
    using 2 sg sd ne by (intro exI[of _ pre2] exI[of _ ?fd] exI[of _ ?fg]) (simp add: endpoint_file_name)
  from A B show ?thesis by (rule conjI)
qed

text \<open>
  C2, as the code has it. For a service whose \<open>types\<close> map is not empty the bundle
  is the entry file, the transport file, the types file and one file per endpoint, and
  the entry file holds one export line per other file in that order: the transport
  file's line first, then the types file's, then the endpoint files'.
\<close>

theorem entry_exports_in_bundle_order:
  assumes "svcTypes service = Some tys" and "tys \<noteq> []"
  shows "\<exists>entryFile typesFile endpointFiles.
           files (generateClientSource T service options)
             = entryFile # renderTransportFile T # typesFile # endpointFiles
         \<and> filename entryFile = entrypoint (generateClientSource T service options)
         \<and> filename typesFile = ''types.ts''
         \<and> length endpointFiles = length (svcEndpoints service)
         \<and> content entryFile =
             joinWith [nl] ([exportLine ''transport.ts'', exportLine ''types.ts'']
                            @ map (\<lambda>file. exportLine (filename file)) endpointFiles) @ [nl]"
  using assms
  by (simp add: generateClientSource_def Let_def renderTypesFile_def renderTransportFile_def
        enumerate0_def comp_assoc)

theorem entry_exports_in_bundle_order_witness:
  "\<exists>entryFile typesFile endpointFiles.
     files (generateClientSource exTemplates exPetService None)
       = entryFile # renderTransportFile exTemplates # typesFile # endpointFiles
     \<and> filename entryFile = entrypoint (generateClientSource exTemplates exPetService None)
     \<and> filename typesFile = ''types.ts''
     \<and> length endpointFiles = length (svcEndpoints exPetService)
     \<and> content entryFile =
         joinWith [nl] ([exportLine ''transport.ts'', exportLine ''types.ts'']
                        @ map (\<lambda>file. exportLine (filename file)) endpointFiles) @ [nl]"
proof -
  have "svcTypes exPetService = Some [(''pet'', exStringSchema)]"
    by (simp add: exPetService_def exService_def)
  from entry_exports_in_bundle_order[OF this, of exTemplates None] show ?thesis
    by simp
qed

text \<open>
  C2 as stated fails: with one type and one endpoint, the entry file starts with the
  transport file's export line, not with the types file's.
\<close>

theorem entry_exports_types_first_counterexample:
  "content (hd (files (generateClientSource exTemplates exPetService None)))
     = exportLine ''transport.ts'' @ [nl] @ exportLine ''types.ts'' @ [nl]
       @ exportLine ''pets/pets.ts'' @ [nl]
   \<and> \<not> prefix (exportLine ''types.ts'')
         (content (hd (files (generateClientSource exTemplates exPetService None))))"
  by code_simp

text \<open>
  C4 fails on the code. The paths \<open>/user-list\<close> and \<open>/user_list\<close> normalise to the
  same segment; both endpoints are \<open>GET\<close>, so the method suffix that is meant to keep
  file names apart is the same for both, and the bundle holds two files named
  \<open>user-list/user-list-get.ts\<close>.
\<close>

theorem filename_collision:
  "map filename (files (generateClientSource exTemplates exUserListService None))
     = [''index.ts'', ''transport.ts'', ''user-list/user-list-get.ts'', ''user-list/user-list-get.ts'']
   \<and> \<not> distinct (map filename (files (generateClientSource exTemplates exUserListService None)))"
  by code_simp

subsection \<open>The normalizer stage\<close>

text \<open>A copy only allocates, and what it returns is made of new cells only.\<close>

lemma unchangedBelow_refl: "L \<le> length h \<Longrightarrow> unchangedBelow L h h"
  by (simp add: unchangedBelow_def)

lemma unchangedBelow_trans:
  "unchangedBelow L h h1 \<Longrightarrow> unchangedBelow L h1 h2 \<Longrightarrow> unchangedBelow L h h2"
  by (simp add: unchangedBelow_def)

lemma cellRefs_blank: "cellRefs (blank c) = {}"
  by (cases c) (simp_all add: cellRefs_def)

lemma cellRefs_rebuild: "cellRefs (rebuild c vs) \<subseteq> (\<Union>v \<in> set vs. valRefs v)"
proof (cases c)
  case (Obj kvs)
  have "set (map snd (zip (map fst kvs) vs)) \<subseteq> set vs"
    by (auto dest: set_zip_rightD)
  then show ?thesis using Obj by (auto simp: cellRefs_def dest: set_zip_rightD)
next
  case (Arr ws)
  then show ?thesis by (simp add: cellRefs_def)
qed

lemma closedFrom_append:
  assumes "closedFrom L h" and "cellRefs c \<subseteq> {L ..< Suc (length h)}"
  shows "closedFrom L (h @ [c])"
  unfolding closedFrom_def
proof (intro allI impI)
  fix a assume a: "L \<le> a \<and> a < length (h @ [c])"
  show "cellRefs ((h @ [c]) ! a) \<subseteq> {L ..< length (h @ [c])}"
  proof (cases "a < length h")
    case True
    with a assms(1) have "cellRefs (h ! a) \<subseteq> {L ..< length h}"
      by (simp add: closedFrom_def)
    with True show ?thesis by (auto simp: nth_append)
  next
    case False
    with a have "a = length h" by simp
    with assms(2) show ?thesis by simp
  qed
qed

lemma closedFrom_update:
  assumes "closedFrom L h" and "cellRefs c \<subseteq> {L ..< length h}"
  shows "closedFrom L (h[a := c])"
  unfolding closedFrom_def
proof (intro allI impI)
  fix b assume b: "L \<le> b \<and> b < length (h[a := c])"
  show "cellRefs (h[a := c] ! b) \<subseteq> {L ..< length (h[a := c])}"
  proof (cases "b = a")
    case True
    with b assms(2) show ?thesis by simp
  next
    case False
    with b assms(1) show ?thesis by (simp add: closedFrom_def)
  qed
qed

lemma reach_closed:
  assumes "closedFrom L h" and "roots \<subseteq> {L ..}"
  shows "reach h roots \<subseteq> {L ..< length h}"
proof
  fix a assume "a \<in> reach h roots"
  then show "a \<in> {L ..< length h}"
  proof induction
    case (root a)
    with assms(2) show ?case by auto
  next
    case (step a b)
    with assms(1) have "cellRefs (h ! a) \<subseteq> {L ..< length h}"
      by (simp add: closedFrom_def)
    with step show ?case by auto
  qed
qed

lemma reach_valid: "a \<in> reach h roots \<Longrightarrow> a < length h"
  by (induction rule: reach.induct) simp_all

lemma copy_fresh:
  "(\<forall>memo' h' v'. copyVal mode n memo h v = Some (memo', h', v') \<longrightarrow> copyPre L memo h \<longrightarrow>
      copyPost L h memo' h' \<and> valRefs v' \<subseteq> {L ..< length h'})"
  "(\<forall>memo' h' vs'. copyVals mode n memo h vs = Some (memo', h', vs') \<longrightarrow> copyPre L memo h \<longrightarrow>
      copyPost L h memo' h' \<and> (\<Union>v \<in> set vs'. valRefs v) \<subseteq> {L ..< length h'})"
proof (induction mode n memo h v and mode n memo h vs rule: copyVal_copyVals.induct)
  case (1 mode memo h a)
  show ?case by simp
next
  case (2 mode n memo h a)
  show ?case
  proof (intro allI impI)
    fix memo' h' v'
    assume res: "copyVal mode (Suc n) memo h (VRef a) = Some (memo', h', v')"
      and pre: "copyPre L memo h"
    from res have valid: "a < length h" by (auto split: if_splits)
    show "copyPost L h memo' h' \<and> valRefs v' \<subseteq> {L ..< length h'}"
    proof (cases mode)
      case Structured
      show ?thesis
      proof (cases "map_of memo a")
        case (Some a')
        with res Structured valid have eq: "memo' = memo" "h' = h" "v' = VRef a'" by auto
        from Some have "a' \<in> snd ` set memo" by (force dest: map_of_SomeD)
        with pre eq show ?thesis by (auto simp: copyPre_def copyPost_def)
      next
        case None
        let ?h1 = "h @ [blank (h ! a)]"
        let ?m1 = "(a, length h) # memo"
        from res Structured valid None obtain m2 h2 vs where
          sub: "copyVals mode n ?m1 ?h1 (cellVals (h ! a)) = Some (m2, h2, vs)"
          and eq: "memo' = m2" "h' = h2[length h := rebuild (h ! a) vs]" "v' = VRef (length h)"
          by (auto simp: Let_def split: option.splits)
        have pre1: "copyPre L ?m1 ?h1"
          using pre by (auto simp: copyPre_def cellRefs_blank intro!: closedFrom_append)
        from "2.IH"(1)[OF _ Structured None refl] valid sub pre1
        have post: "copyPost L ?h1 m2 h2" and refs: "(\<Union>v \<in> set vs. valRefs v) \<subseteq> {L ..< length h2}"
          by auto
        from post have len: "Suc (length h) \<le> length h2"
          and same: "\<forall>x < L. h2 ! x = ?h1 ! x" and pre2: "copyPre L m2 h2"
          by (auto simp: copyPost_def)
        from pre have L: "L \<le> length h" by (simp add: copyPre_def)
        have "cellRefs (rebuild (h ! a) vs) \<subseteq> {L ..< length h2}"
          using cellRefs_rebuild[of "h ! a" vs] refs by blast
        with pre2 have "copyPre L m2 (h2[length h := rebuild (h ! a) vs])"
          by (auto simp: copyPre_def intro: closedFrom_update)
        moreover have "\<forall>x < L. (h2[length h := rebuild (h ! a) vs]) ! x = h ! x"
          using same L by (auto simp: nth_append)
        ultimately show ?thesis
          using eq len L by (auto simp: copyPost_def)
      qed
    next
      case ViaJSON
      from res ViaJSON valid obtain m2 h2 vs where
        sub: "copyVals mode n memo h (cellVals (jsonView (h ! a))) = Some (m2, h2, vs)"
        and eq: "memo' = m2" "h' = h2 @ [rebuild (jsonView (h ! a)) vs]" "v' = VRef (length h2)"
        by (auto split: option.splits)
      from "2.IH"(2)[OF _ ViaJSON] valid sub pre
      have post: "copyPost L h m2 h2" and refs: "(\<Union>v \<in> set vs. valRefs v) \<subseteq> {L ..< length h2}"
        by auto
      from post have len: "length h \<le> length h2"
        and same: "\<forall>x < L. h2 ! x = h ! x" and pre2: "copyPre L m2 h2"
        by (auto simp: copyPost_def)
      from pre2 have L2: "L \<le> length h2" by (simp add: copyPre_def)
      have "cellRefs (rebuild (jsonView (h ! a)) vs) \<subseteq> {L ..< Suc (length h2)}"
        using cellRefs_rebuild[of "jsonView (h ! a)" vs] refs by fastforce
      with pre2 have "copyPre L m2 (h2 @ [rebuild (jsonView (h ! a)) vs])"
        by (auto simp: copyPre_def intro!: closedFrom_append)
      moreover have "\<forall>x < L. (h2 @ [rebuild (jsonView (h ! a)) vs]) ! x = h ! x"
        using same L2 by (auto simp: nth_append)
      ultimately show ?thesis
        using eq len L2 by (auto simp: copyPost_def)
    qed
  qed
next
  case (4 mode n memo h)
  show ?case by (auto simp: copyPre_def copyPost_def)
next
  case (5 mode n memo h v vs)
  show ?case
  proof (intro allI impI)
    fix memo' h' vs'
    assume res: "copyVals mode n memo h (v # vs) = Some (memo', h', vs')"
      and pre: "copyPre L memo h"
    from res obtain m1 h1 v1 m2 h2 vs2 where
      first: "copyVal mode n memo h v = Some (m1, h1, v1)"
      and rest: "copyVals mode n m1 h1 vs = Some (m2, h2, vs2)"
      and eq: "memo' = m2" "h' = h2" "vs' = v1 # vs2"
      by (auto split: option.splits)
    from "5.IH"(1) first pre have p1: "copyPost L h m1 h1" and r1: "valRefs v1 \<subseteq> {L ..< length h1}"
      by auto
    then have pre1: "copyPre L m1 h1" by (simp add: copyPost_def)
    from "5.IH"(2)[OF first refl refl] rest pre1
    have p2: "copyPost L h1 m2 h2" and r2: "(\<Union>v \<in> set vs2. valRefs v) \<subseteq> {L ..< length h2}"
      by auto
    from p1 p2 have "copyPost L h m2 h2" by (auto simp: copyPost_def)
    moreover from p2 r1 have "valRefs v1 \<subseteq> {L ..< length h2}" by (auto simp: copyPost_def)
    ultimately show "copyPost L h memo' h' \<and> (\<Union>v \<in> set vs'. valRefs v) \<subseteq> {L ..< length h'}"
      using eq r2 by auto
  qed
qed (auto simp: copyPre_def copyPost_def)

lemma copyVal_ref_fresh:
  assumes "copyVal mode n [] h (VRef b) = Some (memo, h1, v)"
  shows "\<exists>w. v = VRef w \<and> length h \<le> w \<and> w < length h1
           \<and> unchangedBelow (length h) h h1 \<and> closedFrom (length h) h1"
proof -
  have pre: "copyPre (length h) [] h"
    by (auto simp: copyPre_def closedFrom_def)
  from copy_fresh(1)[of mode n "[]" h "VRef b" "length h"] assms pre
  have post: "copyPost (length h) h memo h1" and refs: "valRefs v \<subseteq> {length h ..< length h1}"
    by auto
  from assms obtain w where w: "v = VRef w"
    by (cases n; cases mode) (auto simp: Let_def split: if_splits option.splits)
  with refs post show ?thesis
    by (auto simp: copyPost_def copyPre_def unchangedBelow_def)
qed

lemma cloneService_fresh:
  assumes "cloneService env h b = Inr (h1, w)"
  shows "length h \<le> w \<and> w < length h1 \<and> unchangedBelow (length h) h h1
         \<and> reach h1 {w} \<subseteq> {length h ..}"
proof -
  from assms obtain mode memo where c: "copyVal mode (stackDepth env) [] h (VRef b) = Some (memo, h1, VRef w)"
    by (auto simp: cloneService_def split: if_splits option.splits val.splits)
  from copyVal_ref_fresh[OF c] have w: "length h \<le> w" "w < length h1"
    and u: "unchangedBelow (length h) h h1" and cl: "closedFrom (length h) h1"
    by auto
  from reach_closed[OF cl, of "{w}"] w have "reach h1 {w} \<subseteq> {length h ..< length h1}"
    by auto
  with w u show ?thesis by auto
qed

lemma transform_step:
  assumes ok: "transformOk t" and inv: "isolated L h0 h w"
    and run: "transformRun t h w = (h', r)"
  shows "unchangedBelow L h0 h'"
    and "r = Inr maybe \<Longrightarrow>
         isolated L h0 h' (case maybe of Some m \<Rightarrow> if m \<noteq> w then m else w | None \<Rightarrow> w)"
proof -
  from inv have u: "unchangedBelow L h0 h" and w: "w < length h" and iso: "reach h {w} \<subseteq> {L ..}"
    by (simp_all add: isolated_def)
  from ok have "\<forall>h working. working < length h \<longrightarrow>
        (case transformRun t h working of
           (h', r) \<Rightarrow>
             length h \<le> length h'
             \<and> (\<forall>a < length h. a \<notin> reach h {working} \<longrightarrow> h' ! a = h ! a)
             \<and> (case r of Inr (Some m) \<Rightarrow> m < length h' | _ \<Rightarrow> True)
             \<and> reach h' (insert working (case r of Inr (Some m) \<Rightarrow> {m} | _ \<Rightarrow> {}))
                 \<subseteq> reach h {working} \<union> {length h ..< length h'})"
    by (simp add: transformOk_def)
  from this[rule_format, OF w] run have len: "length h \<le> length h'"
    and frame: "\<forall>a < length h. a \<notin> reach h {w} \<longrightarrow> h' ! a = h ! a"
    and valid: "case r of Inr (Some m) \<Rightarrow> m < length h' | _ \<Rightarrow> True"
    and sub: "reach h' (insert w (case r of Inr (Some m) \<Rightarrow> {m} | _ \<Rightarrow> {}))
                \<subseteq> reach h {w} \<union> {length h ..< length h'}"
    by simp_all
  from u have L: "L \<le> length h" by (simp add: unchangedBelow_def)
  have "\<forall>a < L. h' ! a = h ! a"
  proof (intro allI impI)
    fix a assume a: "a < L"
    with iso have "a \<notin> reach h {w}" by auto
    with a L frame show "h' ! a = h ! a" by simp
  qed
  with u len show u': "unchangedBelow L h0 h'"
    by (simp add: unchangedBelow_def)
  assume r: "r = Inr maybe"
  let ?w' = "case maybe of Some m \<Rightarrow> if m \<noteq> w then m else w | None \<Rightarrow> w"
  have mem: "?w' \<in> insert w (case r of Inr (Some m) \<Rightarrow> {m} | _ \<Rightarrow> {})"
    using r by (auto split: option.splits)
  have v: "?w' < length h'"
    using r valid w len by (auto split: option.splits)
  have "reach h' {?w'} \<subseteq> reach h' (insert w (case r of Inr (Some m) \<Rightarrow> {m} | _ \<Rightarrow> {}))"
  proof
    fix a assume "a \<in> reach h' {?w'}"
    then show "a \<in> reach h' (insert w (case r of Inr (Some m) \<Rightarrow> {m} | _ \<Rightarrow> {}))"
    proof induction
      case (root a)
      with mem show ?case by (auto intro: reach.root)
    next
      case (step a b)
      then show ?case by (auto intro: reach.step)
    qed
  qed
  with sub iso L have "reach h' {?w'} \<subseteq> {L ..}" by fastforce
  with u' v show "isolated L h0 h' ?w'" by (simp add: isolated_def)
qed

lemma runTransforms_isolated:
  assumes "\<forall>t \<in> set ts. transformOk t" and "isolated L h0 h w"
    and "runTransforms ts idx h w applied = (h', r)"
  shows "unchangedBelow L h0 h' \<and> (\<forall>w' names. r = Inr (w', names) \<longrightarrow> isolated L h0 h' w')"
  using assms
proof (induction ts arbitrary: idx h w applied)
  case Nil
  then show ?case by (auto simp: isolated_def)
next
  case (Cons t ts)
  obtain h1 r1 where run: "transformRun t h w = (h1, r1)" by (cases "transformRun t h w")
  from Cons.prems(1) have ok: "transformOk t" by simp
  note st = transform_step[OF ok Cons.prems(2) run]
  show ?case
  proof (cases r1)
    case (Inl e)
    with run Cons.prems(3) st(1) show ?thesis by auto
  next
    case (Inr maybe)
    let ?w' = "case maybe of Some m \<Rightarrow> if m \<noteq> w then m else w | None \<Rightarrow> w"
    from st(2)[OF Inr] have iso: "isolated L h0 h1 ?w'" .
    from run Inr Cons.prems(3) obtain applied' where
      "runTransforms ts (idx + 1) h1 ?w' applied' = (h', r)"
      by (auto simp: Let_def)
    from Cons.IH[OF _ iso this] Cons.prems(1) show ?thesis by simp
  qed
qed

lemma writeProp_frame:
  "L \<le> c \<Longrightarrow> unchangedBelow L h0 h \<Longrightarrow> unchangedBelow L h0 (writeProp h c k v)"
  by (auto simp: writeProp_def unchangedBelow_def split: option.splits cell.splits)

lemma extension_frame:
  assumes "extensionOk e" and "unchangedBelow L h0 h" and "extensionNormalize e h p = (h', r)"
  shows "unchangedBelow L h0 h'"
proof -
  from assms(1) have "\<forall>h payload.
        (case extensionNormalize e h payload of
           (h', r) \<Rightarrow> length h \<le> length h' \<and> (\<forall>a < length h. h' ! a = h ! a))"
    by (simp add: extensionOk_def)
  from this[rule_format, of h p] assms(3)
  have "length h \<le> length h'" and "\<forall>a < length h. h' ! a = h ! a"
    by simp_all
  with assms(2) show ?thesis by (auto simp: unchangedBelow_def)
qed

lemma runExtensions_frame:
  assumes "\<forall>e \<in> set es. extensionOk e" and "unchangedBelow L h0 h" and "L \<le> collected st"
    and "runExtensions input i es j h st = (h', r)"
  shows "unchangedBelow L h0 h' \<and> (\<forall>st'. r = Inr st' \<longrightarrow> collected st' = collected st)"
  using assms
proof (induction es arbitrary: j h st)
  case Nil
  then show ?case by auto
next
  case (Cons e es)
  obtain h1 r1 where run: "extensionNormalize e h (inputPayload input) = (h1, r1)"
    by (cases "extensionNormalize e h (inputPayload input)")
  from Cons.prems(1) have ok: "extensionOk e" and es: "\<forall>e \<in> set es. extensionOk e"
    by simp_all
  from extension_frame[OF ok Cons.prems(2) run] have u1: "unchangedBelow L h0 h1" .
  show ?case
  proof (cases r1)
    case (Inl err)
    from Cons.prems(4) have "h' = h1" and "r = Inl err" by (simp_all add: run Inl)
    with u1 show ?thesis by simp
  next
    case (Inr maybe)
    show ?thesis
    proof (cases maybe)
      case None
      from Cons.prems(4) have "runExtensions input i es (j + 1) h1 st = (h', r)"
        by (simp add: run Inr None)
      then show ?thesis by (rule Cons.IH[OF es u1 Cons.prems(3)])
    next
      case (Some schema)
      define key where "key = (case inputKey input of
                        Some k \<Rightarrow> k
                      | None \<Rightarrow> extensionName e @ ''-'' @ showNat i @ ''-'' @ showNat j)"
      define st1 where "st1 = st \<lparr> appliedNames := addOnce (extensionName e) (appliedNames st),
                                    changed := True \<rparr>"
      have st1: "collected st1 = collected st" by (simp add: st1_def)
      from Cons.prems(4) have
        next_run: "runExtensions input i es (j + 1) (writeProp h1 (collected st) key (VRef schema)) st1 = (h', r)"
        by (simp add: run Inr Some Let_def key_def st1_def)
      have u2: "unchangedBelow L h0 (writeProp h1 (collected st) key (VRef schema))"
        using Cons.prems(3) u1 by (rule writeProp_frame)
      from Cons.prems(3) st1 have "L \<le> collected st1" by simp
      from Cons.IH[OF es u2 this next_run] show ?thesis unfolding st1 .
    qed
  qed
qed

lemma runInputs_frame:
  assumes "\<forall>e \<in> set es. extensionOk e" and "unchangedBelow L h0 h" and "L \<le> collected st"
    and "runInputs inputs i es h st = (h', r)"
  shows "unchangedBelow L h0 h' \<and> (\<forall>st'. r = Inr st' \<longrightarrow> collected st' = collected st)"
  using assms
proof (induction inputs arbitrary: i h st)
  case Nil
  then show ?case by auto
next
  case (Cons input inputs)
  obtain h1 r1 where run: "runExtensions input i es 0 h st = (h1, r1)"
    by (cases "runExtensions input i es 0 h st")
  note step = runExtensions_frame[OF Cons.prems(1,2,3) run]
  from step have u1: "unchangedBelow L h0 h1" by (rule conjunct1)
  from step have c1: "\<forall>st'. r1 = Inr st' \<longrightarrow> collected st' = collected st" by (rule conjunct2)
  show ?case
  proof (cases r1)
    case (Inl err)
    from Cons.prems(4) have "h' = h1" and "r = Inl err" by (simp_all add: run Inl)
    with u1 show ?thesis by simp
  next
    case (Inr st1)
    from Cons.prems(4) have nxt: "runInputs inputs (i + 1) es h1 st1 = (h', r)"
      by (simp add: run Inr)
    from c1[rule_format, OF Inr] have c: "collected st1 = collected st" .
    with Cons.prems(3) have "L \<le> collected st1" by simp
    from Cons.IH[OF Cons.prems(1) u1 this nxt] show ?thesis unfolding c .
  qed
qed

lemma unchangedBelow_append: "unchangedBelow L h0 h \<Longrightarrow> unchangedBelow L h0 (h @ [c])"
  by (auto simp: unchangedBelow_def nth_append)

lemma collectTypes_frame:
  assumes ext: "\<forall>e \<in> set es. extensionOk e" and u: "unchangedBelow L h0 h"
    and w: "w < length h" "L \<le> w"
    and run: "collectTypes h w es ins = (h', r)"
  shows "unchangedBelow L h0 h'
         \<and> (\<forall>w' types names. r = Inr (w', types, names) \<longrightarrow> L \<le> w' \<and> w' < length h')"
proof (cases "es \<noteq> [] \<and> ins \<noteq> []")
  case False
  with run u w show ?thesis by (auto simp: collectTypes_def)
next
  case True
  define h1 where "h1 = h @ [Obj (spreadVal h (case readProp h w ''types'' of
                        None \<Rightarrow> None
                      | Some VNull \<Rightarrow> None
                      | Some VUndefined \<Rightarrow> None
                      | Some v \<Rightarrow> Some v))]"
  define st0 where "st0 = \<lparr> collected = length h, appliedNames = [], changed = False \<rparr>"
  obtain h2 r2 where ri: "runInputs ins 0 es h1 st0 = (h2, r2)"
    by (cases "runInputs ins 0 es h1 st0")
  from u have L: "L \<le> length h" by (simp add: unchangedBelow_def)
  have u1: "unchangedBelow L h0 h1"
    unfolding h1_def using u by (rule unchangedBelow_append)
  have c0: "collected st0 = length h" by (simp add: st0_def)
  from L c0 have "L \<le> collected st0" by simp
  from runInputs_frame[OF ext u1 this ri]
  have u2: "unchangedBelow L h0 h2" by (rule conjunct1)
  have uh: "unchangedBelow (length h) h h1"
    by (simp add: h1_def unchangedBelow_def nth_append)
  from c0 have "length h \<le> collected st0" by simp
  from runInputs_frame[OF ext uh this ri] have "unchangedBelow (length h) h h2"
    by (rule conjunct1)
  then have len: "length h \<le> length h2" by (simp add: unchangedBelow_def)
  have exec: "collectTypes h w es ins =
      (case (h2, r2) of
         (h2, Inl e) \<Rightarrow> (h2, Inl e)
       | (h2, Inr st) \<Rightarrow>
           if changed st then
             (h2 @ [Obj (objSet ''types'' (VRef (collected st))
                           (assignAll [] (cellEntries (cellAt h2 w))))],
              Inr (length h2, Some (collected st), appliedNames st))
           else (h2, Inr (w, None, appliedNames st)))"
    using True by (simp add: collectTypes_def Let_def h1_def[symmetric] st0_def[symmetric] ri)
  show ?thesis
  proof (cases r2)
    case (Inl e)
    with exec run u2 show ?thesis by auto
  next
    case (Inr st)
    show ?thesis
    proof (cases "changed st")
      case True
      with exec run Inr have "h' = h2 @ [Obj (objSet ''types'' (VRef (collected st))
                           (assignAll [] (cellEntries (cellAt h2 w))))]"
        and "r = Inr (length h2, Some (collected st), appliedNames st)" by auto
      with u2 L len show ?thesis
        by (auto simp: unchangedBelow_def nth_append)
    next
      case False
      with exec run Inr have "h' = h2" and "r = Inr (w, None, appliedNames st)" by auto
      with u2 w len show ?thesis by auto
    qed
  qed
qed

lemma set_objSet: "set (objSet k v kvs) \<subseteq> insert (k, v) (set kvs)"
  by (induction kvs) (auto split: if_splits)

lemma cellRefs_objSet: "cellRefs (Obj (objSet k v kvs)) \<subseteq> cellRefs (Obj kvs) \<union> valRefs v"
  using set_objSet[of k v kvs] by (fastforce simp: cellRefs_def)

lemma reach_update_subset:
  assumes "cellRefs c \<subseteq> cellRefs (h ! a)"
  shows "reach (h[a := c]) roots \<subseteq> reach h roots"
proof
  fix x assume "x \<in> reach (h[a := c]) roots"
  then show "x \<in> reach h roots"
  proof induction
    case (root x)
    then show ?case by (simp add: reach.root)
  next
    case (step x b)
    from step.IH have x: "x < length h" by (rule reach_valid)
    have "b \<in> cellRefs (h ! x)"
    proof (cases "x = a")
      case True
      with step.hyps(2) x assms show ?thesis by auto
    next
      case False
      with step.hyps(2) show ?thesis by simp
    qed
    with step.IH show ?case using step.hyps(3) by (auto intro: reach.step)
  qed
qed

lemma writeProp_reach:
  assumes "valRefs v = {}"
  shows "reach (writeProp h w k v) roots \<subseteq> reach h roots"
proof (cases "cellAt h w")
  case None
  then show ?thesis by (simp add: writeProp_def)
next
  case (Some c)
  then have w: "w < length h" and c: "c = h ! w"
    by (auto simp: cellAt_def split: if_splits)
  show ?thesis
  proof (cases c)
    case (Arr vs)
    with Some show ?thesis by (simp add: writeProp_def)
  next
    case (Obj kvs)
    with c assms have "cellRefs (Obj (objSet k v kvs)) \<subseteq> cellRefs (h ! w)"
      using cellRefs_objSet[of k v kvs] by simp
    then have "reach (h[w := Obj (objSet k v kvs)]) roots \<subseteq> reach h roots"
      by (rule reach_update_subset)
    with Some Obj show ?thesis by (simp add: writeProp_def)
  qed
qed

lemma writeProp_length: "length (writeProp h w k v) = length h"
  by (simp add: writeProp_def split: option.splits cell.splits)

lemma writeProp_other: "a \<noteq> w \<Longrightarrow> writeProp h w k v ! a = h ! a"
  by (simp add: writeProp_def split: option.splits cell.splits)

lemma exRetitle_ok: "transformOk exRetitle"
proof -
  have "length h \<le> length (writeProp h w ''title'' (VStr ''Renamed''))
        \<and> (\<forall>a < length h. a \<notin> reach h {w} \<longrightarrow> writeProp h w ''title'' (VStr ''Renamed'') ! a = h ! a)
        \<and> reach (writeProp h w ''title'' (VStr ''Renamed'')) {w}
            \<subseteq> reach h {w} \<union> {length h ..< length (writeProp h w ''title'' (VStr ''Renamed''))}"
    if w: "w < length h" for h w
  proof (intro conjI allI impI)
    show "length h \<le> length (writeProp h w ''title'' (VStr ''Renamed''))"
      by (simp add: writeProp_length)
  next
    fix a assume "a < length h" and "a \<notin> reach h {w}"
    with w have "a \<noteq> w" by (auto intro: reach.root)
    then show "writeProp h w ''title'' (VStr ''Renamed'') ! a = h ! a"
      by (rule writeProp_other)
  next
    have "reach (writeProp h w ''title'' (VStr ''Renamed'')) {w} \<subseteq> reach h {w}"
      by (rule writeProp_reach) simp
    then show "reach (writeProp h w ''title'' (VStr ''Renamed'')) {w}
            \<subseteq> reach h {w} \<union> {length h ..< length (writeProp h w ''title'' (VStr ''Renamed''))}"
      by blast
  qed
  then show ?thesis by (simp add: transformOk_def exRetitle_def)
qed

lemma exPrimitives_ok: "extensionOk exPrimitives"
  by (simp add: extensionOk_def exPrimitives_def nth_append)

lemma ex_execute:
  "normalizerExecute exPlatform exHeap exNormalizerContext (Some exNormalizerConfig) =
     (exNormalizedHeap,
      Inr (exNormalizerContext \<lparr> normalizedService := Some 6, contextService := Some 6 \<rparr>,
           Some \<lparr> resultService = 6, normalizedTypes = Some 4,
                  appliedTransforms = Some [''retitle''],
                  appliedExtensions = Some [''primitives''] \<rparr>))"
  by (simp add: normalizerExecute_def baseServiceOf_def cloneService_def exPlatform_def
      exHeap_def exNormalizerContext_def exNormalizerConfig_def exRetitle_def exPrimitives_def
      exNormalizedHeap_def collectTypes_def readProp_def writeProp_def cellAt_def spreadVal_def
      assignAll_def addOnce_def nonEmpty_def orElse_def eval_nat_numeral Let_def)

lemma exReturnOriginal_not_ok: "\<not> transformOk exReturnOriginal"
proof
  assume ok: "transformOk exReturnOriginal"
  let ?h = "[Obj [], Obj []]"
  from ok have "\<forall>h working. working < length h \<longrightarrow>
        (case transformRun exReturnOriginal h working of
           (h', r) \<Rightarrow>
             length h \<le> length h'
             \<and> (\<forall>a < length h. a \<notin> reach h {working} \<longrightarrow> h' ! a = h ! a)
             \<and> (case r of Inr (Some m) \<Rightarrow> m < length h' | _ \<Rightarrow> True)
             \<and> reach h' (insert working (case r of Inr (Some m) \<Rightarrow> {m} | _ \<Rightarrow> {}))
                 \<subseteq> reach h {working} \<union> {length h ..< length h'})"
    by (simp add: transformOk_def)
  from this[rule_format, of "Suc 0" ?h]
  have sub: "reach ?h {Suc 0, 0} \<subseteq> reach ?h {Suc 0}"
    by (simp add: exReturnOriginal_def)
  have "closedFrom (Suc 0) ?h"
    by (auto simp: closedFrom_def cellRefs_def nth_Cons split: nat.splits)
  from reach_closed[OF this, of "{Suc 0}"] have "0 \<notin> reach ?h {Suc 0}" by auto
  moreover have "0 \<in> reach ?h {Suc 0, 0}" by (rule reach.root) simp_all
  ultimately show False using sub by auto
qed




end
